theory Spec2Isabelle
  imports Main
begin

section \<open>JavaScript values\<close>

text \<open>
  The two scripts handle JSON data: responses of the remote API, the rows they derive from
  them and the documents they write. A value is modelled as the JSON value it is, with
  \<open>undefined\<close> added; an object is an association list in the order in which the
  engine enumerates its keys. Numbers are integers (surah and ayah numbers, counters);
  strings are lists of characters.
\<close>

datatype jsval =
    JUndefined
  | JNull
  | JBool bool
  | JNum int
  | JStr string
  | JArr "jsval list"
  | JObj "(string \<times> jsval) list"

type_synonym jsobj = "(string \<times> jsval) list"

datatype error = TypeError | ApiError

abbreviation NL :: char where "NL \<equiv> CHR 0x0A"
abbreviation DQ :: char where "DQ \<equiv> CHR 0x22"
abbreviation BSL :: char where "BSL \<equiv> CHR 0x5C"

text \<open>\<open>Array.prototype.join\<close> on strings.\<close>

fun join :: "string \<Rightarrow> string list \<Rightarrow> string" where
  "join sep [] = []"
| "join sep [x] = x"
| "join sep (x # y # ys) = x @ sep @ join sep (y # ys)"

text \<open>Decimal digits of a number, as \<open>Number.prototype.toString\<close> prints an integer.\<close>

fun show_nat :: "nat \<Rightarrow> string" where
  "show_nat n = (if n < 10 then [''0123456789'' ! n]
                 else show_nat (n div 10) @ [''0123456789'' ! (n mod 10)])"

declare show_nat.simps [simp del]

definition show_int :: "int \<Rightarrow> string" where
  "show_int i = (if i < 0 then CHR ''-'' # show_nat (nat (- i)) else show_nat (nat i))"

text \<open>
  \<open>String(v)\<close>, which a template literal and a computed property key apply, and
  \<open>v.toString()\<close> where \<open>v\<close> is neither \<open>undefined\<close> nor \<open>null\<close>. An array prints
  its elements joined by commas, \<open>undefined\<close> and \<open>null\<close> elements as the empty string.
\<close>

fun toString :: "jsval \<Rightarrow> string" where
  "toString JUndefined = ''undefined''"
| "toString JNull = ''null''"
| "toString (JBool b) = (if b then ''true'' else ''false'')"
| "toString (JNum i) = show_int i"
| "toString (JStr s) = s"
| "toString (JArr xs) =
     join '','' (map (\<lambda>x. if x = JUndefined \<or> x = JNull then [] else toString x) xs)"
| "toString (JObj kvs) = ''[object Object]''"

text \<open>Truthiness, as \<open>||\<close>, \<open>?:\<close> and \<open>if\<close> test it.\<close>

fun truthy :: "jsval \<Rightarrow> bool" where
  "truthy JUndefined = False"
| "truthy JNull = False"
| "truthy (JBool b) = b"
| "truthy (JNum i) = (i \<noteq> 0)"
| "truthy (JStr s) = (s \<noteq> [])"
| "truthy (JArr xs) = True"
| "truthy (JObj kvs) = True"

text \<open>\<open>a || b\<close>.\<close>

definition js_or :: "jsval \<Rightarrow> jsval \<Rightarrow> jsval" where
  "js_or a b = (if truthy a then a else b)"

text \<open>Reading a property of an object: \<open>undefined\<close> when the key is absent.\<close>

definition field :: "jsobj \<Rightarrow> string \<Rightarrow> jsval" where
  "field obj k = (case map_of obj k of None \<Rightarrow> JUndefined | Some v \<Rightarrow> v)"

text \<open>
  Reading a property of any value (\<open>v.k\<close>): a TypeError on \<open>undefined\<close> and \<open>null\<close>,
  \<open>undefined\<close> on a primitive or an array (the keys read are data field names).
\<close>

fun getProp :: "jsval \<Rightarrow> string \<Rightarrow> error + jsval" where
  "getProp JUndefined k = Inl TypeError"
| "getProp JNull k = Inl TypeError"
| "getProp (JObj kvs) k = Inr (field kvs k)"
| "getProp v k = Inr JUndefined"

text \<open>\<open>s.replace(/c/g, r)\<close> for a one-character pattern.\<close>

definition replaceAll :: "char \<Rightarrow> string \<Rightarrow> string \<Rightarrow> string" where
  "replaceAll c r s = concat (map (\<lambda>x. if x = c then r else [x]) s)"

section \<open>CSV encoding (both scripts)\<close>

text \<open>\<open>row[header]?.toString() || ''\<close>.\<close>

definition csvValue :: "jsval \<Rightarrow> string" where
  "csvValue v = (if v = JUndefined \<or> v = JNull then [] else toString v)"

text \<open>
  The field encoder of \<open>objectsToCSV\<close>, the same text in both scripts: quote the value,
  doubling its quotes, if it contains a comma, a newline or a quote.
\<close>

definition csvField :: "string \<Rightarrow> string" where
  "csvField v =
     (if CHR '','' \<in> set v \<or> NL \<in> set v \<or> DQ \<in> set v
      then [DQ] @ replaceAll DQ [DQ, DQ] v @ [DQ]
      else v)"

text \<open>\<open>objectsToCSV\<close> of translations_quranenc.com.js: the headers are the first row's keys.\<close>

definition csvRow :: "string list \<Rightarrow> jsobj \<Rightarrow> string" where
  "csvRow headers row = join '','' (map (\<lambda>header. csvField (csvValue (field row header))) headers) @ [NL]"

definition objectsToCSV :: "jsobj list \<Rightarrow> bool \<Rightarrow> string" where
  "objectsToCSV data includeHeaders =
     (case data of
        [] \<Rightarrow> []
      | first # _ \<Rightarrow>
          (let headers = map fst first
           in (if includeHeaders then join '','' headers @ [NL] else [])
              @ concat (map (csvRow headers) data)))"

section \<open>Decoding a CSV field (the standard rule)\<close>

text \<open>
  The reader's side of the quoting rule, as RFC 4180 states it. A field that starts with a
  quote runs to the first quote that is not doubled, a doubled quote stands for one quote,
  and the closing quote is followed by a comma, a line break or the end of the text. Any
  other field runs to the next comma or line break and holds no quote. A line break starts
  with a carriage return or a line feed: neither is data in an unquoted field. The decoder
  returns the field and the text after it, and \<open>None\<close> for a text that does not start with
  a field.
\<close>

abbreviation CR :: char where "CR \<equiv> CHR 0x0D"

definition field_end :: "string \<Rightarrow> bool" where
  "field_end rest = (case rest of [] \<Rightarrow> True | c # cs \<Rightarrow> c = CHR '','' \<or> c = CR \<or> c = NL)"

definition bare_char :: "char \<Rightarrow> bool" where
  "bare_char c = (c \<noteq> CHR '','' \<and> c \<noteq> CR \<and> c \<noteq> NL)"

fun csv_quoted :: "string \<Rightarrow> string \<Rightarrow> (string \<times> string) option" where
  "csv_quoted acc [] = None"
| "csv_quoted acc [c] = (if c = DQ then Some (acc, []) else None)"
| "csv_quoted acc (c # d # cs) =
     (if c = DQ then (if d = DQ then csv_quoted (acc @ [DQ]) cs else Some (acc, d # cs))
      else csv_quoted (acc @ [c]) (d # cs))"

definition csv_decode_field :: "string \<Rightarrow> (string \<times> string) option" where
  "csv_decode_field s =
     (case s of
        [] \<Rightarrow> Some ([], [])
      | c # cs \<Rightarrow>
          if c = DQ
          then (case csv_quoted [] cs of
                  None \<Rightarrow> None
                | Some (v, rest) \<Rightarrow> if field_end rest then Some (v, rest) else None)
          else (let v = takeWhile bare_char s
                in if DQ \<in> set v then None else Some (v, dropWhile bare_char s)))"

section \<open>JSON text\<close>

text \<open>
  \<open>JSON.stringify(v, null, 2)\<close>: two spaces of indentation per level, one member or
  element per line, a property whose value is \<open>undefined\<close> left out, an \<open>undefined\<close>
  array element written \<open>null\<close>.
\<close>

definition escape_char :: "char \<Rightarrow> string" where
  "escape_char c =
     (if c = DQ then [BSL, DQ]
      else if c = BSL then [BSL, BSL]
      else if c = CHR 0x08 then [BSL, CHR ''b'']
      else if c = CHR 0x0C then [BSL, CHR ''f'']
      else if c = NL then [BSL, CHR ''n'']
      else if c = CHR 0x0D then [BSL, CHR ''r'']
      else if c = CHR 0x09 then [BSL, CHR ''t'']
      else if (of_char c :: nat) < 32
        then [BSL, CHR ''u'', CHR ''0'', CHR ''0'',
              ''0123456789abcdef'' ! (of_char c div 16), ''0123456789abcdef'' ! (of_char c mod 16)]
      else [c])"

definition quote :: "string \<Rightarrow> string" where
  "quote s = [DQ] @ concat (map escape_char s) @ [DQ]"

fun stringify :: "nat \<Rightarrow> jsval \<Rightarrow> string" where
  "stringify n JUndefined = ''null''"
| "stringify n JNull = ''null''"
| "stringify n (JBool b) = (if b then ''true'' else ''false'')"
| "stringify n (JNum i) = show_int i"
| "stringify n (JStr s) = quote s"
| "stringify n (JArr xs) =
     (if xs = [] then ''[]''
      else ''['' @ [NL]
        @ join ('','' @ [NL]) (map (\<lambda>x. replicate (n + 2) CHR '' '' @ stringify (n + 2) x) xs)
        @ [NL] @ replicate n CHR '' '' @ '']'')"
| "stringify n (JObj kvs) =
     (if filter (\<lambda>p. snd p \<noteq> JUndefined) kvs = [] then ''{}''
      else ''{'' @ [NL]
        @ join ('','' @ [NL])
            (map (\<lambda>p. replicate (n + 2) CHR '' '' @ quote (fst p) @ '': '' @ stringify (n + 2) (snd p))
               (filter (\<lambda>p. snd p \<noteq> JUndefined) kvs))
        @ [NL] @ replicate n CHR '' '' @ ''}'')"

definition JSON_stringify :: "jsval \<Rightarrow> string" where
  "JSON_stringify v = stringify 0 v"

section \<open>Objects built key by key\<close>

text \<open>
  An object enumerates its keys with the canonical array indices first, in ascending
  numeric order, and the other keys after them in the order of their creation. The
  groupings by surah number below add keys to an empty object.
\<close>

definition index_value :: "string \<Rightarrow> nat" where
  "index_value k = foldl (\<lambda>a c. 10 * a + (of_char c - 48)) 0 k"

definition is_index :: "string \<Rightarrow> bool" where
  "is_index k =
     (k \<noteq> [] \<and> list_all (\<lambda>c. c \<in> set ''0123456789'') k
      \<and> (k = ''0'' \<or> take 1 k \<noteq> ''0'') \<and> index_value k < 4294967295)"

fun insert_key :: "string \<Rightarrow> 'a \<Rightarrow> (string \<times> 'a) list \<Rightarrow> (string \<times> 'a) list" where
  "insert_key k v [] = [(k, v)]"
| "insert_key k v ((k', v') # rest) =
     (if is_index k \<and> (\<not> is_index k' \<or> index_value k < index_value k')
      then (k, v) # (k', v') # rest
      else (k', v') # insert_key k v rest)"

text \<open>
  \<open>if (!groups[k]) groups[k] = []; groups[k].push(x)\<close>: the value under a key is an
  array, which is truthy, so the test is whether the key is present.
\<close>

definition group_push :: "(string \<times> 'a list) list \<Rightarrow> string \<Rightarrow> 'a \<Rightarrow> (string \<times> 'a list) list" where
  "group_push groups k x =
     (case map_of groups k of
        None \<Rightarrow> insert_key k [x] groups
      | Some xs \<Rightarrow> map (\<lambda>(k', ys). if k' = k then (k', ys @ [x]) else (k', ys)) groups)"

section \<open>The file system\<close>

text \<open>
  A path is the list of the segments given to \<open>path.join\<close>. The state holds the content
  of every file and the set of directories. \<open>fs.mkdir\<close> with \<open>recursive\<close> creates the
  directory and its ancestors; \<open>fs.appendFile\<close> creates a file that does not exist. Both
  scripts write only into directories they have created or found, so a write does not fail
  in the model.
\<close>

type_synonym path = "string list"

record fs_state =
  files :: "path \<rightharpoonup> string"
  dirs :: "path set"

definition ensureDir :: "path \<Rightarrow> fs_state \<Rightarrow> fs_state" where
  "ensureDir dirPath fs = fs\<lparr>dirs := dirs fs \<union> set (map (\<lambda>n. take n dirPath) [1..<Suc (length dirPath)])\<rparr>"

definition writeFile :: "path \<Rightarrow> string \<Rightarrow> fs_state \<Rightarrow> fs_state" where
  "writeFile p content fs = fs\<lparr>files := (files fs)(p \<mapsto> content)\<rparr>"

definition appendFile :: "path \<Rightarrow> string \<Rightarrow> fs_state \<Rightarrow> fs_state" where
  "appendFile p content fs =
     fs\<lparr>files := (files fs)(p \<mapsto> (case files fs p of None \<Rightarrow> content | Some old \<Rightarrow> old @ content))\<rparr>"

definition access :: "path \<Rightarrow> fs_state \<Rightarrow> bool" where
  "access p fs = (p \<in> dirs fs \<or> files fs p \<noteq> None)"

section \<open>The ingestion script (translations_quranenc.com.js)\<close>

subsection \<open>The verse fetcher\<close>

text \<open>
  The remote API is a function from the endpoint to what \<open>fetchAPI\<close> gives for it: the
  parsed response, or the error it throws (a transport failure, a status other than 2xx,
  a body that is not JSON).
\<close>

type_synonym api = "string \<Rightarrow> error + jsval"

definition fetchAPI :: "api \<Rightarrow> string \<Rightarrow> error + jsval" where
  "fetchAPI remote endpoint = remote endpoint"

definition surah_endpoint :: "string \<Rightarrow> nat \<Rightarrow> string" where
  "surah_endpoint translationKey surahNumber =
     ''/translation/sura/'' @ translationKey @ ''/'' @ show_nat surahNumber"

text \<open>The body of the \<open>try\<close> block of one iteration.\<close>

definition fetch_surah :: "api \<Rightarrow> string \<Rightarrow> nat \<Rightarrow> jsval list \<Rightarrow> error + jsval list" where
  "fetch_surah remote translationKey surahNumber allSurahsData =
     (case fetchAPI remote (surah_endpoint translationKey surahNumber) of
        Inl e \<Rightarrow> Inl e
      | Inr data \<Rightarrow>
          (case getProp data ''result'' of
             Inl e \<Rightarrow> Inl e
           | Inr r \<Rightarrow>
               (case r of
                  JArr verses \<Rightarrow> Inr (allSurahsData @ verses)
                | _ \<Rightarrow> Inr allSurahsData)))"

text \<open>The loop over the surah numbers; the \<open>catch\<close> block keeps what was fetched so far.\<close>

function surah_loop :: "api \<Rightarrow> string \<Rightarrow> nat \<Rightarrow> jsval list \<Rightarrow> error + jsval list" where
  "surah_loop remote translationKey surahNumber allSurahsData =
     (if surahNumber \<le> 114
      then (case fetch_surah remote translationKey surahNumber allSurahsData of
              Inl e \<Rightarrow> surah_loop remote translationKey (Suc surahNumber) allSurahsData
            | Inr fetched \<Rightarrow> surah_loop remote translationKey (Suc surahNumber) fetched)
      else Inr allSurahsData)"
  by pat_completeness auto
termination
  by (relation "measure (\<lambda>(remote, translationKey, surahNumber, allSurahsData). 115 - surahNumber)") auto

declare surah_loop.simps [simp del]

definition getTranslationForAllSurahs :: "api \<Rightarrow> string \<Rightarrow> error + jsval list" where
  "getTranslationForAllSurahs remote translationKey = surah_loop remote translationKey 1 []"

text \<open>
  What one surah's request contributes, in the words of the specification: the verse list
  of a response that carries one, nothing for a request that fails or a response without a
  result list.
\<close>

definition surah_verses :: "error + jsval \<Rightarrow> jsval list" where
  "surah_verses outcome =
     (case outcome of
        Inr (JObj response) \<Rightarrow> (case field response ''result'' of JArr verses \<Rightarrow> verses | _ \<Rightarrow> [])
      | _ \<Rightarrow> [])"

subsection \<open>Translation documents\<close>

text \<open>
  The hierarchical document of one translation, as the ingestion script builds it and the
  redistribution script reads it back. The key and the language code are strings (they
  have been path segments); the other leaves are whatever values the source carried.
\<close>

record ayah_entry =
  ayah :: jsval
  arabic_text :: jsval
  translation :: jsval
  footnotes :: jsval

record document =
  translation_key :: string
  language_code :: string
  translation_title :: jsval
  translation_version :: jsval
  surahs :: "(string \<times> ayah_entry list) list"

definition ayah_json :: "ayah_entry \<Rightarrow> jsval" where
  "ayah_json e =
     JObj [(''ayah'', ayah e), (''arabic_text'', arabic_text e),
           (''translation'', translation e), (''footnotes'', footnotes e)]"

definition document_json :: "document \<Rightarrow> jsval" where
  "document_json d =
     JObj [(''translation_key'', JStr (translation_key d)),
           (''language_code'', JStr (language_code d)),
           (''translation_title'', translation_title d),
           (''translation_version'', translation_version d),
           (''surahs'', JObj (map (\<lambda>(surahNum, ayahs). (surahNum, JArr (map ayah_json ayahs))) (surahs d)))]"

subsection \<open>Processing one translation\<close>

text \<open>
  \<open>allAyahs.map(ayah => ({surah: ayah.sura, ayah: ayah.aya, ...}))\<close> for one verse of the
  response. \<open>ayah.translation.replace\<close> throws a TypeError unless the translation is a
  string, and so does \<open>ayah.footnotes.replace\<close> on a truthy value that is not a string.
\<close>

fun processAyah :: "jsval \<Rightarrow> error + jsobj" where
  "processAyah (JObj a) =
     (case field a ''translation'' of
        JStr t \<Rightarrow>
          (if truthy (field a ''footnotes'')
           then (case field a ''footnotes'' of
                   JStr f \<Rightarrow>
                     Inr [(''surah'', field a ''sura''), (''ayah'', field a ''aya''),
                          (''arabic_text'', field a ''arabic_text''),
                          (''translation'', JStr (replaceAll NL '' '' t)),
                          (''footnotes'', JStr (replaceAll NL '' '' f))]
                 | _ \<Rightarrow> Inl TypeError)
           else Inr [(''surah'', field a ''sura''), (''ayah'', field a ''aya''),
                     (''arabic_text'', field a ''arabic_text''),
                     (''translation'', JStr (replaceAll NL '' '' t)),
                     (''footnotes'', JStr [])])
      | _ \<Rightarrow> Inl TypeError)"
| "processAyah v = Inl TypeError"

fun map_err :: "('a \<Rightarrow> error + 'b) \<Rightarrow> 'a list \<Rightarrow> error + 'b list" where
  "map_err f [] = Inr []"
| "map_err f (x # xs) =
     (case f x of
        Inl e \<Rightarrow> Inl e
      | Inr y \<Rightarrow> (case map_err f xs of Inl e \<Rightarrow> Inl e | Inr ys \<Rightarrow> Inr (y # ys)))"

text \<open>The rows of parallel_corpus.csv, from the processed rows.\<close>

definition parallelCorpus :: "jsobj list \<Rightarrow> jsobj list" where
  "parallelCorpus processedData =
     map (\<lambda>a. [(''surah'', field a ''surah''), (''ayah'', field a ''aya''),
                (''arabic'', field a ''arabic_text''), (''translation'', field a ''translation'')])
       processedData"

text \<open>The rows added to the consolidated tabular buffer.\<close>

definition enhancedData :: "string \<Rightarrow> string \<Rightarrow> jsval \<Rightarrow> jsval \<Rightarrow> jsobj list \<Rightarrow> jsobj list" where
  "enhancedData key language_iso_code title version processedData =
     map (\<lambda>a. [(''translation_key'', JStr key), (''language_code'', JStr language_iso_code),
                (''translation_title'', title), (''translation_version'', version),
                (''surah'', field a ''surah''), (''ayah'', field a ''aya''),
                (''arabic_text'', field a ''arabic_text''), (''translation'', field a ''translation''),
                (''footnotes'', js_or (field a ''footnotes'') (JStr []))])
       processedData"

text \<open>The grouping by surah for the per-surah files.\<close>

definition surahGroups :: "jsobj list \<Rightarrow> (string \<times> jsobj list) list" where
  "surahGroups processedData =
     foldl (\<lambda>groups a. group_push groups (toString (field a ''surah'')) a) [] processedData"

text \<open>The document for the consolidated JSON file.\<close>

definition jsonData :: "string \<Rightarrow> string \<Rightarrow> jsval \<Rightarrow> jsval \<Rightarrow> jsobj list \<Rightarrow> document" where
  "jsonData key language_iso_code title version processedData =
     \<lparr>translation_key = key, language_code = language_iso_code,
      translation_title = title, translation_version = version,
      surahs = foldl (\<lambda>groups a.
                  group_push groups (toString (field a ''surah''))
                    \<lparr>ayah = field a ''aya'', arabic_text = field a ''arabic_text'',
                     translation = field a ''translation'',
                     footnotes = js_or (field a ''footnotes'') (JStr [])\<rparr>)
                [] processedData\<rparr>"

definition padStart :: "nat \<Rightarrow> char \<Rightarrow> string \<Rightarrow> string" where
  "padStart n c s = replicate (n - length s) c @ s"

text \<open>
  What \<open>processTranslation\<close> returns: \<open>null\<close>, the error object of its \<open>catch\<close> block
  (key, language, error), or the result object (key, language, ayah_count, json_data).
\<close>

datatype pt_result =
    PNull
  | PError jsval jsval error
  | POk string string nat document

text \<open>
  \<open>processTranslation\<close>, with the buffer \<open>allTranslationsData\<close> it appends to and the file
  system passed through. \<open>path.join\<close> throws a TypeError on a segment that is not a string;
  everything the \<open>try\<close> block throws ends in the error object, and what was written before
  stays written.
\<close>

definition processTranslation ::
  "api \<Rightarrow> jsobj \<Rightarrow> jsobj list \<Rightarrow> fs_state \<Rightarrow> pt_result \<times> jsobj list \<times> fs_state" where
  "processTranslation remote tr allTranslationsData fs =
     (let key = field tr ''key'';
          language_iso_code = field tr ''language_iso_code'';
          title = field tr ''title'';
          version = field tr ''version''
      in case (language_iso_code, key) of
           (JStr l, JStr k) \<Rightarrow>
             (let translationDir = [''datasets'', l, k];
                  fs1 = ensureDir translationDir fs;
                  fs2 = writeFile (translationDir @ [''metadata.json'']) (JSON_stringify (JObj tr)) fs1
              in case getTranslationForAllSurahs remote k of
                   Inl e \<Rightarrow> (PError key language_iso_code e, allTranslationsData, fs2)
                 | Inr allAyahs \<Rightarrow>
                     if allAyahs = [] then (PNull, allTranslationsData, fs2)
                     else
                       (case map_err processAyah allAyahs of
                          Inl e \<Rightarrow> (PError key language_iso_code e, allTranslationsData, fs2)
                        | Inr processedData \<Rightarrow>
                            (let fs3 = writeFile (translationDir @ [''full_translation.csv''])
                                         (objectsToCSV processedData True) fs2;
                                 fs4 = foldl (\<lambda>f (surahNum, ayahs).
                                           writeFile (translationDir @ [''surah_'' @ padStart 3 CHR ''0'' surahNum @ ''.csv''])
                                             (objectsToCSV ayahs True) f)
                                         fs3 (surahGroups processedData);
                                 fs5 = writeFile (translationDir @ [''parallel_corpus.csv''])
                                         (objectsToCSV (parallelCorpus processedData) True) fs4
                             in (POk k l (length allAyahs) (jsonData k l title version processedData),
                                 allTranslationsData @ enhancedData k l title version processedData,
                                 fs5))))
         | _ \<Rightarrow> (PError key language_iso_code TypeError, allTranslationsData, fs))"

subsection \<open>The chunked tabular writer\<close>

abbreviation all_translations_csv :: path where
  "all_translations_csv \<equiv> [''datasets'', ''all_translations.csv'']"

abbreviation all_translations_json :: path where
  "all_translations_json \<equiv> [''datasets'', ''all_translations.json'']"

text \<open>\<open>xs.slice(a, b)\<close> for \<open>0 \<le> a \<le> b\<close>.\<close>

definition slice :: "nat \<Rightarrow> nat \<Rightarrow> 'a list \<Rightarrow> 'a list" where
  "slice a b xs = take (b - a) (drop a xs)"

text \<open>
  The loop \<open>for (let i = 0; i < length; i += chunkSize)\<close> of \<open>saveChunkedData\<close>. With a
  chunk size of 0 it never ends; not returning is the value \<open>None\<close>.
\<close>

function saveChunkedData_loop :: "jsobj list \<Rightarrow> nat \<Rightarrow> nat \<Rightarrow> fs_state \<Rightarrow> fs_state option" where
  "saveChunkedData_loop allTranslationsData chunkSize i fs =
     (if i < length allTranslationsData
      then (if chunkSize = 0 then None
            else saveChunkedData_loop allTranslationsData chunkSize (i + chunkSize)
                   (appendFile all_translations_csv
                      (objectsToCSV (slice i (i + chunkSize) allTranslationsData) False) fs))
      else Some fs)"
  by pat_completeness auto
termination
  by (relation "measure (\<lambda>(allTranslationsData, chunkSize, i, fs). length allTranslationsData - i)") auto

declare saveChunkedData_loop.simps [simp del]

definition saveChunkedData :: "jsobj list \<Rightarrow> nat \<Rightarrow> bool \<Rightarrow> fs_state \<Rightarrow> fs_state option" where
  "saveChunkedData allTranslationsData chunkSize isFirstChunk fs =
     (case allTranslationsData of
        [] \<Rightarrow> Some fs
      | first # _ \<Rightarrow>
          saveChunkedData_loop allTranslationsData chunkSize 0
            (if isFirstChunk
             then writeFile all_translations_csv (join '','' (map fst first) @ [NL]) fs
             else fs))"

text \<open>
  The sub-chunks of a buffer: consecutive pieces of \<open>c\<close> rows, the last one the rest.
\<close>

function sub_chunks :: "nat \<Rightarrow> 'a list \<Rightarrow> 'a list list" where
  "sub_chunks c xs = (if xs = [] \<or> c = 0 then [] else take c xs # sub_chunks c (drop c xs))"
  by pat_completeness auto
termination
  by (relation "measure (\<lambda>(c, xs). length xs)") auto

declare sub_chunks.simps [simp del]

text \<open>
  The flushes of one run, as the main loop makes them: the buffers in order, the first
  with the first-chunk flag as given and the later ones with the flag unset, each in
  sub-chunks of 1000 rows.
\<close>

fun flushes :: "jsobj list list \<Rightarrow> bool \<Rightarrow> fs_state \<Rightarrow> fs_state option" where
  "flushes [] isFirstChunk fs = Some fs"
| "flushes (buffer # later) isFirstChunk fs =
     (case saveChunkedData buffer 1000 isFirstChunk fs of
        None \<Rightarrow> None
      | Some fs' \<Rightarrow> flushes later False fs')"

subsection \<open>The streaming JSON array writer\<close>

function saveJsonData_loop :: "document list \<Rightarrow> bool \<Rightarrow> nat \<Rightarrow> fs_state \<Rightarrow> fs_state" where
  "saveJsonData_loop allTranslationsJSON isFinalChunk i fs =
     (if i < length allTranslationsJSON
      then saveJsonData_loop allTranslationsJSON isFinalChunk (i + 1)
             (appendFile all_translations_json
                (JSON_stringify (document_json (allTranslationsJSON ! i))
                 @ (if \<not> (int i = int (length allTranslationsJSON) - 1 \<and> isFinalChunk)
                    then '','' @ [NL] else [NL]))
                fs)
      else fs)"
  by pat_completeness auto
termination
  by (relation "measure (\<lambda>(allTranslationsJSON, isFinalChunk, i, fs). length allTranslationsJSON - i)") auto

declare saveJsonData_loop.simps [simp del]

definition saveJsonData :: "document list \<Rightarrow> bool \<Rightarrow> bool \<Rightarrow> fs_state \<Rightarrow> fs_state" where
  "saveJsonData allTranslationsJSON isFirstChunk isFinalChunk fs =
     (if allTranslationsJSON = [] then fs
      else
        (let fs1 = (if isFirstChunk then writeFile all_translations_json (''['' @ [NL]) fs else fs);
             fs2 = saveJsonData_loop allTranslationsJSON isFinalChunk 0 fs1
         in if isFinalChunk then appendFile all_translations_json '']'' fs2 else fs2))"

subsection \<open>The main loop\<close>

record main_state =
  allTranslationsData :: "jsobj list"
  allTranslationsJSON :: "document list"
  results :: "pt_result list"
  successCount :: nat
  errorCount :: nat
  firstCSVChunk :: bool
  firstJSONChunk :: bool
  fsys :: fs_state

definition progress_json :: "nat \<Rightarrow> nat \<Rightarrow> nat \<Rightarrow> nat \<Rightarrow> jsval \<Rightarrow> jsval" where
  "progress_json ntotal processed success err last_processed =
     JObj [(''total'', JNum (int ntotal)), (''processed'', JNum (int processed)),
           (''success'', JNum (int success)), (''error'', JNum (int err)),
           (''last_processed'', last_processed)]"

text \<open>
  One iteration of the loop over the catalog, for the translation at index \<open>i\<close> of
  \<open>ntotal\<close>. The flush of the tabular buffer uses sub-chunks of 1000 rows.
\<close>

definition main_step :: "api \<Rightarrow> nat \<Rightarrow> nat \<Rightarrow> jsobj \<Rightarrow> main_state \<Rightarrow> main_state option" where
  "main_step remote ntotal i tr st =
     (case processTranslation remote tr (allTranslationsData st) (fsys st) of
        (result, data1, fs1) \<Rightarrow>
          (let st1 = (case result of
                        PNull \<Rightarrow> st\<lparr>errorCount := errorCount st + 1\<rparr>
                      | PError k l e \<Rightarrow>
                          st\<lparr>results := results st @ [result], errorCount := errorCount st + 1\<rparr>
                      | POk k l n d \<Rightarrow>
                          st\<lparr>results := results st @ [result],
                             allTranslationsJSON := allTranslationsJSON st @ [d],
                             successCount := successCount st + 1\<rparr>);
               isLastTranslation = (int i = int ntotal - 1);
               fs2 = (if i mod 5 = 0 \<or> isLastTranslation
                      then writeFile [''datasets'', ''processing_progress.json'']
                             (JSON_stringify (progress_json ntotal (i + 1) (successCount st1)
                                (errorCount st1) (field tr ''key''))) fs1
                      else fs1)
           in case (if 10000 < length data1 \<or> isLastTranslation
                    then map_option (\<lambda>f. (f, False, [])) (saveChunkedData data1 1000 (firstCSVChunk st1) fs2)
                    else Some (fs2, firstCSVChunk st1, data1)) of
                None \<Rightarrow> None
              | Some (fs3, firstCSV, data2) \<Rightarrow>
                  (case (if 20 < length (allTranslationsJSON st1) \<or> isLastTranslation
                         then (saveJsonData (allTranslationsJSON st1) (firstJSONChunk st1) isLastTranslation fs3,
                               False, [])
                         else (fs3, firstJSONChunk st1, allTranslationsJSON st1)) of
                     (fs4, firstJSON, json2) \<Rightarrow>
                       Some (st1\<lparr>allTranslationsData := data2, allTranslationsJSON := json2,
                                 firstCSVChunk := firstCSV, firstJSONChunk := firstJSON,
                                 fsys := fs4\<rparr>))))"

fun main_loop :: "api \<Rightarrow> nat \<Rightarrow> nat \<Rightarrow> jsobj list \<Rightarrow> main_state \<Rightarrow> main_state option" where
  "main_loop remote ntotal i [] st = Some st"
| "main_loop remote ntotal i (tr # rest) st =
     (case main_step remote ntotal i tr st of
        None \<Rightarrow> None
      | Some st' \<Rightarrow> main_loop remote ntotal (i + 1) rest st')"

definition error_message :: "error \<Rightarrow> string" where
  "error_message e = (case e of TypeError \<Rightarrow> ''TypeError'' | ApiError \<Rightarrow> ''API request failed'')"

text \<open>The entry of the summary for one result (\<open>null\<close> results are not recorded).\<close>

definition result_summary :: "pt_result \<Rightarrow> jsval" where
  "result_summary r =
     (case r of
        PNull \<Rightarrow> JNull
      | PError k l e \<Rightarrow> JObj [(''key'', k), (''language'', l), (''error'', JStr (error_message e))]
      | POk k l n d \<Rightarrow> JObj [(''key'', JStr k), (''language'', JStr l), (''ayah_count'', JNum (int n))])"

text \<open>
  A run of \<open>main\<close> either completes, with the state of its loop and the files it leaves,
  or is ended by an exception, which the catch block of \<open>main\<close> logs.
\<close>

datatype run = Aborted error fs_state | Completed main_state

text \<open>
  \<open>main\<close> from the point where its two catalog requests have returned the translations
  (a list of objects) and the languages (a JSON value); the directory \<open>datasets\<close> is
  created before the requests. The log line after the second request reads
  \<open>languages.length\<close>: a TypeError if the languages are \<open>undefined\<close> or \<open>null\<close>, which
  ends the run before any file is written; on any other value the read gives a value that
  is only logged. Then the catalog snapshots are written, the loop runs and the summary is
  written. A failure of either catalog request ends the run
  before anything here happens. The result is \<open>None\<close> if the run does not return.
\<close>

definition main :: "api \<Rightarrow> jsobj list \<Rightarrow> jsval \<Rightarrow> fs_state \<Rightarrow> run option" where
  "main remote translations languages fs =
     (let fs0 = ensureDir [''datasets''] fs
      in if languages = JUndefined \<or> languages = JNull then Some (Aborted TypeError fs0)
         else
            (let fs1 = writeFile [''datasets'', ''languages_list.json''] (JSON_stringify languages)
                         (writeFile [''datasets'', ''translations_list.json'']
                            (JSON_stringify (JArr (map JObj translations))) fs0)
             in case main_loop remote (length translations) 0 translations
                       \<lparr>allTranslationsData = [], allTranslationsJSON = [], results = [],
                        successCount = 0, errorCount = 0, firstCSVChunk = True,
                        firstJSONChunk = True, fsys = fs1\<rparr> of
                  None \<Rightarrow> None
                | Some st \<Rightarrow>
                    Some (Completed
                      (st\<lparr>fsys := writeFile [''datasets'', ''processing_summary.json'']
                         (JSON_stringify
                            (JObj [(''total'', JNum (int (length translations))),
                                   (''success'', JNum (int (successCount st))),
                                   (''error'', JNum (int (errorCount st))),
                                   (''results'', JArr (map result_summary (results st)))]))
                         (fsys st)\<rparr>))))"

section \<open>Parsing JSON text\<close>

text \<open>
  \<open>JSON.parse\<close>: a recursive-descent parser for the JSON grammar with integer numbers
  and one-byte characters (of the \<open>\u\<close> escapes, those below 256). The recursion is bounded
  by a counter that starts at the length of the text; every call that takes one from the
  counter is followed by the reading of at least one character. The result is \<open>None\<close>
  where \<open>JSON.parse\<close> throws a SyntaxError. The properties below use the parser on
  concrete texts only.
\<close>

definition is_ws :: "char \<Rightarrow> bool" where
  "is_ws c = (c = CHR '' '' \<or> c = NL \<or> c = CHR 0x0D \<or> c = CHR 0x09)"

definition is_digit :: "char \<Rightarrow> bool" where
  "is_digit c = (c \<in> set ''0123456789'')"

definition is_hex :: "char \<Rightarrow> bool" where
  "is_hex c = (c \<in> set ''0123456789abcdefABCDEF'')"

definition hex_value :: "char \<Rightarrow> nat" where
  "hex_value c =
     (if is_digit c then of_char c - 48
      else if c \<in> set ''abcdef'' then of_char c - 87
      else of_char c - 55)"

text \<open>The text of a string literal after its opening quote.\<close>

fun parse_string :: "string \<Rightarrow> string \<Rightarrow> (string \<times> string) option" where
  "parse_string acc [] = None"
| "parse_string acc (c # cs) =
     (if c = DQ then Some (acc, cs)
      else if c = BSL then
        (case cs of
           [] \<Rightarrow> None
         | e # rest \<Rightarrow>
             if e = DQ \<or> e = BSL \<or> e = CHR ''/'' then parse_string (acc @ [e]) rest
             else if e = CHR ''n'' then parse_string (acc @ [NL]) rest
             else if e = CHR ''r'' then parse_string (acc @ [CHR 0x0D]) rest
             else if e = CHR ''t'' then parse_string (acc @ [CHR 0x09]) rest
             else if e = CHR ''b'' then parse_string (acc @ [CHR 0x08]) rest
             else if e = CHR ''f'' then parse_string (acc @ [CHR 0x0C]) rest
             else if e = CHR ''u'' then
               (case rest of
                  a # b # h # l # rest' \<Rightarrow>
                    if a = CHR ''0'' \<and> b = CHR ''0'' \<and> is_hex h \<and> is_hex l
                    then parse_string (acc @ [char_of (16 * hex_value h + hex_value l)]) rest'
                    else None
                | _ \<Rightarrow> None)
             else None)
      else if (of_char c :: nat) < 32 then None
      else parse_string (acc @ [c]) cs)"

definition parse_number :: "string \<Rightarrow> (jsval \<times> string) option" where
  "parse_number s =
     (let negative = (take 1 s = ''-'');
          s1 = (if negative then drop 1 s else s);
          ds = takeWhile is_digit s1;
          rest = dropWhile is_digit s1
      in if ds = [] \<or> (1 < length ds \<and> take 1 ds = ''0'')
            \<or> take 1 rest = ''.'' \<or> take 1 rest = ''e'' \<or> take 1 rest = ''E''
         then None
         else Some (JNum (if negative then - int (index_value ds) else int (index_value ds)), rest))"

text \<open>Setting a property of an object: an existing key keeps its place.\<close>

definition obj_set :: "(string \<times> 'a) list \<Rightarrow> string \<Rightarrow> 'a \<Rightarrow> (string \<times> 'a) list" where
  "obj_set obj k v =
     (if map_of obj k = None then insert_key k v obj
      else map (\<lambda>(k', v'). if k' = k then (k', v) else (k', v')) obj)"

fun parse_value :: "nat \<Rightarrow> string \<Rightarrow> (jsval \<times> string) option"
  and parse_elements :: "nat \<Rightarrow> jsval list \<Rightarrow> string \<Rightarrow> (jsval \<times> string) option"
  and parse_members :: "nat \<Rightarrow> jsobj \<Rightarrow> string \<Rightarrow> (jsval \<times> string) option" where
  "parse_value 0 s = None"
| "parse_value (Suc n) s =
     (case dropWhile is_ws s of
        [] \<Rightarrow> None
      | c # cs \<Rightarrow>
          if c = CHR ''{'' then
            (case dropWhile is_ws cs of
               [] \<Rightarrow> None
             | d # ds \<Rightarrow> if d = CHR ''}'' then Some (JObj [], ds) else parse_members n [] cs)
          else if c = CHR ''['' then
            (case dropWhile is_ws cs of
               [] \<Rightarrow> None
             | d # ds \<Rightarrow> if d = CHR '']'' then Some (JArr [], ds) else parse_elements n [] cs)
          else if c = DQ then
            (case parse_string [] cs of None \<Rightarrow> None | Some (str, rest) \<Rightarrow> Some (JStr str, rest))
          else if take 4 (c # cs) = ''true'' then Some (JBool True, drop 4 (c # cs))
          else if take 5 (c # cs) = ''false'' then Some (JBool False, drop 5 (c # cs))
          else if take 4 (c # cs) = ''null'' then Some (JNull, drop 4 (c # cs))
          else parse_number (c # cs))"
| "parse_elements 0 acc s = None"
| "parse_elements (Suc n) acc s =
     (case parse_value n s of
        None \<Rightarrow> None
      | Some (v, rest) \<Rightarrow>
          (case dropWhile is_ws rest of
             [] \<Rightarrow> None
           | c # cs \<Rightarrow>
               if c = CHR '','' then parse_elements n (acc @ [v]) cs
               else if c = CHR '']'' then Some (JArr (acc @ [v]), cs)
               else None))"
| "parse_members 0 acc s = None"
| "parse_members (Suc n) acc s =
     (case dropWhile is_ws s of
        [] \<Rightarrow> None
      | q # qs \<Rightarrow>
          if q \<noteq> DQ then None
          else
            (case parse_string [] qs of
               None \<Rightarrow> None
             | Some (k, rest) \<Rightarrow>
                 (case dropWhile is_ws rest of
                    [] \<Rightarrow> None
                  | c # cs \<Rightarrow>
                      if c \<noteq> CHR '':'' then None
                      else
                        (case parse_value n cs of
                           None \<Rightarrow> None
                         | Some (v, rest') \<Rightarrow>
                             (case dropWhile is_ws rest' of
                                [] \<Rightarrow> None
                              | d # ds \<Rightarrow>
                                  if d = CHR '','' then parse_members n (obj_set acc k v) ds
                                  else if d = CHR ''}'' then Some (JObj (obj_set acc k v), ds)
                                  else None)))))"

definition JSON_parse :: "string \<Rightarrow> jsval option" where
  "JSON_parse s =
     (case parse_value (length s) s of
        None \<Rightarrow> None
      | Some (v, rest) \<Rightarrow> if dropWhile is_ws rest = [] then Some v else None)"

section \<open>The redistribution script (split_translations.js)\<close>

subsection \<open>The incremental reader of the JSON array file\<close>

text \<open>The loop that skips the commas, newlines and spaces after an object.\<close>

function skip_separators :: "string \<Rightarrow> nat \<Rightarrow> nat" where
  "skip_separators chunk nextStart =
     (if nextStart < length chunk
         \<and> (chunk ! nextStart = CHR '','' \<or> chunk ! nextStart = NL \<or> chunk ! nextStart = CHR '' '')
      then skip_separators chunk (nextStart + 1)
      else nextStart)"
  by pat_completeness auto
termination
  by (relation "measure (\<lambda>(chunk, nextStart). length chunk - nextStart)") auto

declare skip_separators.simps [simp del]

text \<open>
  The scan of one chunk, character by character, from index \<open>i\<close>: the start of the
  current object, the brace depth, whether the scan is inside a string, whether the
  previous character was a backslash, and the objects yielded so far. A text that
  \<open>parse\<close> rejects is logged and dropped. The scan returns the start of the unconsumed
  tail and the objects.
\<close>

function scan_chunk ::
  "(string \<Rightarrow> 'a option) \<Rightarrow> string \<Rightarrow> nat \<Rightarrow> nat \<Rightarrow> int \<Rightarrow> bool \<Rightarrow> bool \<Rightarrow> 'a list \<Rightarrow> nat \<times> 'a list" where
  "scan_chunk parse chunk i startIdx bracketCount inString escapeNext yielded =
     (if i < length chunk then
        (if escapeNext then
           scan_chunk parse chunk (i + 1) startIdx bracketCount inString False yielded
         else if chunk ! i = BSL then
           scan_chunk parse chunk (i + 1) startIdx bracketCount inString True yielded
         else if chunk ! i = DQ then
           scan_chunk parse chunk (i + 1) startIdx bracketCount (\<not> inString) escapeNext yielded
         else if \<not> inString \<and> chunk ! i = CHR ''{'' then
           scan_chunk parse chunk (i + 1) startIdx (bracketCount + 1) inString escapeNext yielded
         else if \<not> inString \<and> chunk ! i = CHR ''}'' then
           (if bracketCount - 1 = 0 then
              scan_chunk parse chunk (skip_separators chunk (i + 1)) (skip_separators chunk (i + 1))
                0 inString escapeNext
                (case parse (slice startIdx (i + 1) chunk) of
                   Some obj \<Rightarrow> yielded @ [obj]
                 | None \<Rightarrow> yielded)
            else
              scan_chunk parse chunk (i + 1) startIdx (bracketCount - 1) inString escapeNext yielded)
         else
           scan_chunk parse chunk (i + 1) startIdx bracketCount inString escapeNext yielded)
      else (startIdx, yielded))"
  by pat_completeness auto
termination
proof (relation "measure (\<lambda>(parse, chunk, i, startIdx, bracketCount, inString, escapeNext, yielded).
                    length chunk - i)", goal_cases)
  case (6 parse chunk i startIdx bracketCount inString escapeNext yielded)
  have "n \<le> skip_separators chunk n" for n
  proof (induction chunk n rule: skip_separators.induct)
    case (1 chunk n)
    then show ?case by (subst skip_separators.simps) auto
  qed
  from this [of "i + 1"] 6 show ?case by simp
qed auto

declare scan_chunk.simps [simp del]

text \<open>
  The loop over the reads: \<open>position\<close> starts at 1 (after the opening bracket) and the
  loop stops before the last byte. Each read takes up to \<open>bufferLength\<close> bytes (the source
  allocates 1 MiB); the scan starts afresh on the carried tail followed by the bytes read.
  The text of the file is a list of one-byte characters.
\<close>

function read_loop ::
  "(string \<Rightarrow> 'a option) \<Rightarrow> nat \<Rightarrow> string \<Rightarrow> nat \<Rightarrow> string \<Rightarrow> 'a list \<Rightarrow> 'a list" where
  "read_loop parse bufferLength file position leftover yielded =
     (if int position < int (length file) - 1 then
        (if min bufferLength (length file - position) = 0 then yielded
         else
           (case scan_chunk parse
                   (leftover @ slice position (position + min bufferLength (length file - position)) file)
                   0 0 0 False False yielded of
              (startIdx, yielded') \<Rightarrow>
                read_loop parse bufferLength file
                  (position + min bufferLength (length file - position))
                  (drop startIdx
                     (leftover @ slice position (position + min bufferLength (length file - position)) file))
                  yielded'))
      else yielded)"
  by pat_completeness auto
termination
  by (relation "measure (\<lambda>(parse, bufferLength, file, position, leftover, yielded).
                   length file - position)") auto

declare read_loop.simps [simp del]

definition readJsonInChunks :: "(string \<Rightarrow> 'a option) \<Rightarrow> nat \<Rightarrow> string \<Rightarrow> 'a list" where
  "readJsonInChunks parse bufferLength file = read_loop parse bufferLength file 1 [] []"

subsection \<open>Flattening a document\<close>

text \<open>The flat record pushed for one ayah entry of one surah.\<close>

definition flat_row :: "document \<Rightarrow> string \<Rightarrow> ayah_entry \<Rightarrow> jsobj" where
  "flat_row d surahNum e =
     [(''translation_key'', JStr (translation_key d)),
      (''language_code'', JStr (language_code d)),
      (''translation_title'', translation_title d),
      (''translation_version'', js_or (translation_version d) (JStr [])),
      (''surah'', JStr surahNum),
      (''ayah'', ayah e),
      (''arabic_text'', arabic_text e),
      (''translation'', translation e),
      (''footnotes'', js_or (footnotes e) (JStr []))]"

definition flattenTranslationForCSV :: "document \<Rightarrow> jsobj list" where
  "flattenTranslationForCSV d =
     concat (map (\<lambda>(surahNum, ayahs). map (flat_row d surahNum) ayahs) (surahs d))"

text \<open>
  Grouping flat rows by their surah value again, as the scripts group rows
  (\<open>if (!groups[row.surah]) groups[row.surah] = []; groups[row.surah].push(...)\<close>), each
  entry made of the row's ayah, arabic_text, translation and footnotes.
\<close>

definition entry_of_row :: "jsobj \<Rightarrow> ayah_entry" where
  "entry_of_row row =
     \<lparr>ayah = field row ''ayah'', arabic_text = field row ''arabic_text'',
      translation = field row ''translation'', footnotes = field row ''footnotes''\<rparr>"

definition regroup_by_surah :: "jsobj list \<Rightarrow> (string \<times> ayah_entry list) list" where
  "regroup_by_surah rows =
     foldl (\<lambda>groups row. group_push groups (toString (field row ''surah'')) (entry_of_row row))
       [] rows"

definition is_string :: "jsval \<Rightarrow> bool" where
  "is_string v = (case v of JStr s \<Rightarrow> True | _ \<Rightarrow> False)"

subsection \<open>\<open>objectsToCSV\<close> of split_translations.js\<close>

text \<open>
  The headers are the keys of all the rows, in the order of their first occurrence, and for
  a row that carries a \<open>surahs\<close> object the keys of the first ayah of each surah, prefixed
  with \<open>ayah_\<close>. (The rows this script passes are flattened rows, which carry no \<open>surahs\<close>
  key; the model follows the nested case for an object of arrays of objects.) The field
  encoder is the one of the ingestion script.
\<close>

definition add_headers :: "string list \<Rightarrow> string list \<Rightarrow> string list" where
  "add_headers allHeaders ks = foldl (\<lambda>hs k. if k \<in> set hs then hs else hs @ [k]) allHeaders ks"

definition nested_keys :: "jsobj \<Rightarrow> string list" where
  "nested_keys obj =
     (case field obj ''surahs'' of
        JObj ss \<Rightarrow>
          concat (map (\<lambda>(surahNum, ayahs).
                    case ayahs of
                      JArr (JObj first # _) \<Rightarrow> map (\<lambda>k. ''ayah_'' @ k) (map fst first)
                    | _ \<Rightarrow> []) ss)
      | _ \<Rightarrow> [])"

definition all_headers :: "jsobj list \<Rightarrow> string list" where
  "all_headers data =
     foldl (\<lambda>hs obj. add_headers (add_headers hs (map fst obj)) (nested_keys obj)) [] data"

definition csvRow_split :: "string list \<Rightarrow> jsobj \<Rightarrow> string" where
  "csvRow_split headers row =
     join '','' (map (\<lambda>header.
                      if take 5 header = ''ayah_'' \<and> truthy (field row ''surahs'') then []
                      else csvField (csvValue (field row header))) headers) @ [NL]"

definition objectsToCSV_split :: "jsobj list \<Rightarrow> bool \<Rightarrow> string" where
  "objectsToCSV_split data includeHeaders =
     (if data = [] then []
      else (if includeHeaders then join '','' (all_headers data) @ [NL] else [])
           @ concat (map (csvRow_split (all_headers data)) data))"

subsection \<open>The regrouping engine\<close>

text \<open>
  A \<open>Map\<close> from a string to an array keeps its keys in the order of their insertion:
  \<open>if (!m.has(k)) m.set(k, []); m.get(k).push(x)\<close>.
\<close>

definition map_push :: "(string \<times> 'a list) list \<Rightarrow> string \<Rightarrow> 'a \<Rightarrow> (string \<times> 'a list) list" where
  "map_push m k x =
     (case map_of m k of
        None \<Rightarrow> m @ [(k, [x])]
      | Some xs \<Rightarrow> map (\<lambda>(k', ys). if k' = k then (k', ys @ [x]) else (k', ys)) m)"

text \<open>\<open>s.split(c)\<close> for a one-character separator.\<close>

fun split_on :: "char \<Rightarrow> string \<Rightarrow> string list" where
  "split_on c [] = [[]]"
| "split_on c (x # xs) =
     (if x = c then [] # split_on c xs
      else (case split_on c xs of
              [] \<Rightarrow> [[x]]
            | p # ps \<Rightarrow> (x # p) # ps))"

record org_state =
  languageMap :: "(string \<times> document list) list"
  versionMap :: "(string \<times> document list) list"
  translationCount :: nat
  org_fs :: fs_state

definition versionKey :: "document \<Rightarrow> string" where
  "versionKey d = language_code d @ ''_'' @ toString (js_or (translation_version d) (JStr ''default''))"

text \<open>
  The body of the loop over the documents the reader yields. The per-translation files
  are written only if the translation's directory exists.
\<close>

definition organize_step :: "org_state \<Rightarrow> document \<Rightarrow> org_state" where
  "organize_step st d =
     \<lparr>languageMap = map_push (languageMap st) (language_code d) d,
      versionMap = map_push (versionMap st) (versionKey d) d,
      translationCount = translationCount st + 1,
      org_fs =
        (let translationDir = [''datasets'', language_code d, translation_key d]
         in if access translationDir (org_fs st)
            then (let fs1 = writeFile (translationDir @ [''full_translation.json''])
                              (JSON_stringify (document_json d)) (org_fs st)
                  in if flattenTranslationForCSV d \<noteq> []
                     then writeFile (translationDir @ [''full_translation_flat.csv''])
                            (objectsToCSV_split (flattenTranslationForCSV d) True) fs1
                     else fs1)
            else org_fs st)\<rparr>"

text \<open>
  The loop that writes a flattened list in chunks of 10000 rows: the first chunk creates
  the file, with the header row; the later ones are appended.
\<close>

function write_csv_chunks :: "path \<Rightarrow> jsobj list \<Rightarrow> nat \<Rightarrow> fs_state \<Rightarrow> fs_state" where
  "write_csv_chunks p allFlattenedData i fs =
     (if i < length allFlattenedData
      then write_csv_chunks p allFlattenedData (i + 10000)
             (if i = 0
              then writeFile p (objectsToCSV_split (slice i (i + 10000) allFlattenedData) True) fs
              else appendFile p (objectsToCSV_split (slice i (i + 10000) allFlattenedData) False) fs)
      else fs)"
  by pat_completeness auto
termination
  by (relation "measure (\<lambda>(p, allFlattenedData, i, fs). length allFlattenedData - i)") auto

declare write_csv_chunks.simps [simp del]


text \<open>
  The files of one language. The \<open>try\<close> block (the directory exists) and the \<open>catch\<close>
  block (it is created first) write the same two files.
\<close>

definition save_language_files :: "fs_state \<Rightarrow> string \<times> document list \<Rightarrow> fs_state" where
  "save_language_files fs entry =
     (case entry of
        (language, translations) \<Rightarrow>
          (let languageDir = [''datasets'', language];
               fs0 = (if access languageDir fs then fs else ensureDir languageDir fs);
               fs1 = writeFile (languageDir @ [''full_language_translations.json''])
                       (JSON_stringify (JArr (map document_json translations))) fs0
           in write_csv_chunks (languageDir @ [''full_language_translations.csv''])
                (concat (map flattenTranslationForCSV translations)) 0 fs1))"

text \<open>
  The files of one version key: \<open>const [language, version] = versionKey.split('_')\<close> takes
  the first two parts of the key.
\<close>

definition version_language :: "string \<Rightarrow> string" where
  "version_language key = (case split_on CHR ''_'' key of [] \<Rightarrow> ''undefined'' | l # _ \<Rightarrow> l)"

definition version_label :: "string \<Rightarrow> jsval" where
  "version_label key = (case split_on CHR ''_'' key of _ # v # _ \<Rightarrow> JStr v | _ \<Rightarrow> JUndefined)"

definition save_version_files :: "fs_state \<Rightarrow> string \<times> document list \<Rightarrow> fs_state" where
  "save_version_files fs entry =
     (case entry of
        (key, translations) \<Rightarrow>
          (let languageDir = [''datasets'', version_language key];
               version = toString (version_label key);
               fs0 = (if access languageDir fs then fs else ensureDir languageDir fs);
               fs1 = writeFile (languageDir @ [''version_'' @ version @ ''_translations.json''])
                       (JSON_stringify (JArr (map document_json translations))) fs0
           in write_csv_chunks (languageDir @ [''version_'' @ version @ ''_translations.csv''])
                (concat (map flattenTranslationForCSV translations)) 0 fs1))"

text \<open>The index: per language its code, its number of translations and its versions.\<close>

definition index_versions :: "org_state \<Rightarrow> string \<Rightarrow> jsval list" where
  "index_versions st lang =
     map version_label
       (filter (\<lambda>key. take (length lang + 1) key = lang @ ''_'') (map fst (versionMap st)))"

definition indexData :: "org_state \<Rightarrow> jsval" where
  "indexData st =
     JObj [(''total_translations'', JNum (int (translationCount st))),
           (''languages'',
            JArr (map (\<lambda>(lang, translations).
                         JObj [(''code'', JStr lang),
                               (''translation_count'', JNum (int (length translations))),
                               (''versions'', JArr (index_versions st lang))])
                    (languageMap st)))]"

text \<open>
  \<open>organizeTranslations\<close> on the sequence of documents the reader yields: the loop over
  the documents, the language files, the version files, the index.
\<close>

definition organize_loop :: "document list \<Rightarrow> fs_state \<Rightarrow> org_state" where
  "organize_loop docs fs =
     foldl organize_step \<lparr>languageMap = [], versionMap = [], translationCount = 0, org_fs = fs\<rparr> docs"

definition organizeTranslations :: "document list \<Rightarrow> fs_state \<Rightarrow> org_state" where
  "organizeTranslations docs fs =
     (let st = organize_loop docs fs;
          fs1 = foldl save_language_files (org_fs st) (languageMap st);
          fs2 = foldl save_version_files fs1 (versionMap st)
      in st\<lparr>org_fs := writeFile [''datasets'', ''translations_index.json'']
                          (JSON_stringify (indexData st)) fs2\<rparr>)"

section \<open>The JSON array file over a run\<close>

text \<open>
  What the flushes of the main loop do to the text of all_translations.json, as a function
  of the documents the translations of the catalog produce. \<open>json_flush\<close> is the effect
  of one call of \<open>saveJsonData\<close> on the text; \<open>json_step\<close> is the effect of one
  iteration of the main loop on the buffer of documents, the first-chunk flag and the
  text; \<open>json_run\<close> is the loop. \<open>produced_document\<close> is the document one translation
  adds to the buffer, if any.
\<close>

definition json_flush :: "document list \<Rightarrow> bool \<Rightarrow> bool \<Rightarrow> string option \<Rightarrow> string option" where
  "json_flush docs isFirstChunk isFinalChunk content =
     (if docs = [] then content
      else Some ((if isFirstChunk then ''['' @ [NL]
                  else (case content of None \<Rightarrow> [] | Some old \<Rightarrow> old))
                 @ concat (map (\<lambda>d. JSON_stringify (document_json d) @ '','' @ [NL]) (butlast docs))
                 @ JSON_stringify (document_json (last docs))
                 @ (if isFinalChunk then [NL] @ '']'' else '','' @ [NL])))"

definition json_step ::
  "nat \<Rightarrow> nat \<Rightarrow> document option \<Rightarrow> document list \<times> bool \<times> string option
     \<Rightarrow> document list \<times> bool \<times> string option" where
  "json_step ntotal i produced s =
     (case s of
        (buffer, isFirst, content) \<Rightarrow>
          (if 20 < length (buffer @ (case produced of None \<Rightarrow> [] | Some d \<Rightarrow> [d]))
                \<or> int i = int ntotal - 1
           then ([], False,
                 json_flush (buffer @ (case produced of None \<Rightarrow> [] | Some d \<Rightarrow> [d]))
                   isFirst (int i = int ntotal - 1) content)
           else (buffer @ (case produced of None \<Rightarrow> [] | Some d \<Rightarrow> [d]), isFirst, content)))"

fun json_run ::
  "nat \<Rightarrow> nat \<Rightarrow> document option list \<Rightarrow> document list \<times> bool \<times> string option
     \<Rightarrow> document list \<times> bool \<times> string option" where
  "json_run ntotal i [] s = s"
| "json_run ntotal i (produced # rest) s = json_run ntotal (i + 1) rest (json_step ntotal i produced s)"

definition produced_document :: "api \<Rightarrow> jsobj \<Rightarrow> document option" where
  "produced_document remote tr =
     (case fst (processTranslation remote tr [] \<lparr>files = Map.empty, dirs = {}\<rparr>) of
        POk k l n d \<Rightarrow> Some d
      | _ \<Rightarrow> None)"

definition json_state :: "main_state \<Rightarrow> document list \<times> bool \<times> string option" where
  "json_state st = (allTranslationsJSON st, firstJSONChunk st, files (fsys st) all_translations_json)"

section \<open>Example inputs\<close>

text \<open>
  Concrete inputs at which the theorems below are evaluated: a verse as the API returns it,
  a remote that has one verse of surah 1 for the translation \<open>k1\<close> and fails on every
  other request, a remote that fails on every request, a catalog entry, an empty disk.
\<close>

definition verse1 :: jsval where
  "verse1 = JObj [(''id'', JNum 1), (''sura'', JNum 1), (''aya'', JNum 1),
     (''arabic_text'', JStr ''bismillah''), (''translation'', JStr ''In the name of God''),
     (''footnotes'', JStr [])]"

definition one_verse_api :: api where
  "one_verse_api endpoint =
     (if endpoint = ''/translation/sura/k1/1'' then Inr (JObj [(''result'', JArr [verse1])])
      else Inl ApiError)"

definition failing_api :: api where
  "failing_api endpoint = Inl ApiError"

text \<open>A remote whose one verse has a carriage return in its Arabic text.\<close>

definition cr_verse_api :: api where
  "cr_verse_api endpoint =
     (if endpoint = ''/translation/sura/k1/1''
      then Inr (JObj [(''result'', JArr [JObj [(''id'', JNum 1), (''sura'', JNum 1), (''aya'', JNum 1),
              (''arabic_text'', JStr (''x'' @ [CR] @ ''y'')), (''translation'', JStr ''t''),
              (''footnotes'', JStr [])]])])
      else Inl ApiError)"

definition entry1 :: jsobj where
  "entry1 = [(''key'', JStr ''k1''), (''language_iso_code'', JStr ''en''),
             (''title'', JStr ''T''), (''version'', JStr ''1.0'')]"

definition empty_fs :: fs_state where "empty_fs = \<lparr>files = Map.empty, dirs = {}\<rparr>"

text \<open>Three rows of two columns, for the chunked tabular writer.\<close>

definition csv_rows :: "jsobj list" where
  "csv_rows = map (\<lambda>n. [(''surah'', JNum 1), (''ayah'', JNum n)]) [1, 2, 3]"

text \<open>
  A document without verses, and the text of the array file that holds two of them.
\<close>

definition small_doc :: "string \<Rightarrow> document" where
  "small_doc k =
     \<lparr>translation_key = k, language_code = ''en'', translation_title = JStr ''T'',
      translation_version = JStr ''1'', surahs = []\<rparr>"

definition two_docs_file :: string where
  "two_docs_file =
     ''['' @ [NL] @ JSON_stringify (document_json (small_doc ''a'')) @ '','' @ [NL]
     @ JSON_stringify (document_json (small_doc ''b'')) @ [NL] @ '']''"

text \<open>A document of two surahs, and a document whose one surah has no ayah.\<close>

definition two_surahs_doc :: document where
  "two_surahs_doc =
     \<lparr>translation_key = ''k1'', language_code = ''en'', translation_title = JStr ''T'',
      translation_version = JUndefined,
      surahs =
        [(''1'', [\<lparr>ayah = JNum 1, arabic_text = JStr ''alif'', translation = JStr ''one'', footnotes = JStr []\<rparr>,
                 \<lparr>ayah = JNum 2, arabic_text = JStr ''ba'', translation = JStr ''two'', footnotes = JStr ''note''\<rparr>]),
         (''2'', [\<lparr>ayah = JNum 1, arabic_text = JStr ''ta'', translation = JStr ''three'', footnotes = JStr []\<rparr>])]\<rparr>"

definition empty_surah_doc :: document where
  "empty_surah_doc =
     \<lparr>translation_key = ''k1'', language_code = ''en'', translation_title = JStr ''T'',
      translation_version = JUndefined, surahs = [(''1'', [])]\<rparr>"

text \<open>A document without verses, with a given language code and version.\<close>

definition versioned_doc :: "string \<Rightarrow> jsval \<Rightarrow> document" where
  "versioned_doc l v =
     \<lparr>translation_key = ''k1'', language_code = l, translation_title = JStr ''T'',
      translation_version = v, surahs = []\<rparr>"

text \<open>
  A catalog of 22 translations and a remote that has the verse 1:1 for each of the first
  21 and nothing for the last; the document each of the first 21 produces.
\<close>

definition catalog22 :: "jsobj list" where
  "catalog22 =
     map (\<lambda>n. [(''key'', JStr (''t'' @ show_nat n)), (''language_iso_code'', JStr ''en''),
                (''title'', JStr ''T''), (''version'', JStr ''1.0'')]) [1..<23]"

definition api22 :: api where
  "api22 endpoint =
     (if take 2 (rev endpoint) = ''1/'' \<and> endpoint \<noteq> ''/translation/sura/t22/1''
      then Inr (JObj [(''result'', JArr [verse1])])
      else Inl ApiError)"

definition doc22 :: "nat \<Rightarrow> document" where
  "doc22 n =
     \<lparr>translation_key = ''t'' @ show_nat n, language_code = ''en'',
      translation_title = JStr ''T'', translation_version = JStr ''1.0'',
      surahs = [(''1'', [\<lparr>ayah = JUndefined, arabic_text = JStr ''bismillah'',
                          translation = JStr ''In the name of God'', footnotes = JStr []\<rparr>])]\<rparr>"

section \<open>Properties\<close>

subsection \<open>The CSV field encoder\<close>

lemma csv_quoted_doubled:
  "rest = [] \<or> hd rest \<noteq> DQ \<Longrightarrow>
   csv_quoted acc (replaceAll DQ [DQ, DQ] v @ DQ # rest) = Some (acc @ v, rest)"
proof (induction v arbitrary: acc)
  case Nil
  then show ?case by (cases rest) (auto simp: replaceAll_def)
next
  case (Cons c v)
  have step: "csv_quoted (acc @ [c]) (replaceAll DQ [DQ, DQ] v @ DQ # rest) = Some ((acc @ [c]) @ v, rest)"
    using Cons.IH [OF Cons.prems] .
  show ?case
  proof (cases "c = DQ")
    case True
    then show ?thesis using step by (simp add: replaceAll_def)
  next
    case False
    obtain d ds where "replaceAll DQ [DQ, DQ] v @ DQ # rest = d # ds"
      by (cases "replaceAll DQ [DQ, DQ] v @ DQ # rest") auto
    then show ?thesis using step False by (simp add: replaceAll_def)
  qed
qed

lemma field_end_not_quote: "field_end rest \<Longrightarrow> rest = [] \<or> hd rest \<noteq> DQ"
  by (cases rest) (auto simp: field_end_def)

lemma csv_bare_field:
  assumes a: "CHR '','' \<notin> set v" "NL \<notin> set v" "DQ \<notin> set v" "CR \<notin> set v"
    and r: "field_end rest"
  shows "csv_decode_field (v @ rest) = Some (v, rest)"
proof -
  have all: "\<forall>x\<in>set v. bare_char x" using a by (auto simp: bare_char_def)
  have tw: "takeWhile bare_char (v @ rest) = v"
  proof (cases rest)
    case Nil
    then show ?thesis using all by (simp add: takeWhile_eq_all_conv)
  next
    case (Cons x xs)
    then have "\<not> bare_char x" using r by (auto simp: field_end_def bare_char_def)
    then show ?thesis using all Cons by (simp add: takeWhile_append2)
  qed
  have "dropWhile bare_char (v @ rest) = dropWhile bare_char rest"
    using all by (simp add: dropWhile_append2)
  moreover have "dropWhile bare_char rest = rest"
    using r by (cases rest) (auto simp: field_end_def bare_char_def)
  ultimately have dw: "dropWhile bare_char (v @ rest) = rest" by simp
  show ?thesis
  proof (cases "v @ rest")
    case Nil
    then show ?thesis by (simp add: csv_decode_field_def)
  next
    case (Cons c cs)
    have "c \<noteq> DQ"
    proof (cases v)
      case Nil
      then show ?thesis using Cons r by (auto simp: field_end_def)
    next
      case (Cons y ys)
      then show ?thesis using \<open>v @ rest = c # cs\<close> a by auto
    qed
    then show ?thesis using Cons tw dw a by (simp add: csv_decode_field_def)
  qed
qed

lemma replaceAll_length: "length v \<le> length (replaceAll DQ [DQ, DQ] v)"
  by (induction v) (auto simp: replaceAll_def)

lemma csvField_quoted_iff:
  "(csvField v = [DQ] @ replaceAll DQ [DQ, DQ] v @ [DQ])
     = (CHR '','' \<in> set v \<or> NL \<in> set v \<or> DQ \<in> set v)"
proof (cases "CHR '','' \<in> set v \<or> NL \<in> set v \<or> DQ \<in> set v")
  case True
  then show ?thesis by (simp add: csvField_def)
next
  case False
  have "length v < length ([DQ] @ replaceAll DQ [DQ, DQ] v @ [DQ])"
    using replaceAll_length [of v] by simp
  then have "v \<noteq> [DQ] @ replaceAll DQ [DQ, DQ] v @ [DQ]" by (metis less_irrefl)
  then show ?thesis using False by (simp add: csvField_def)
qed

text \<open>
  C6 (as amended). The field encoder of \<open>objectsToCSV\<close> writes a string value in quotes,
  with its quotes doubled, exactly when the value contains a comma, a newline or a quote,
  and writes it bare otherwise. For every value that contains no carriage return, or
  contains one together with a comma, a newline or a quote, decoding the encoded field,
  followed by the end of the text, a comma or a line break, gives back the value and leaves
  what follows.
\<close>

theorem csvField_roundtrip:
  assumes "CR \<notin> set v \<or> CHR '','' \<in> set v \<or> NL \<in> set v \<or> DQ \<in> set v"
    and "field_end rest"
  shows "csv_decode_field (csvField v @ rest) = Some (v, rest)
    \<and> (csvField v = [DQ] @ replaceAll DQ [DQ, DQ] v @ [DQ])
        = (CHR '','' \<in> set v \<or> NL \<in> set v \<or> DQ \<in> set v)
    \<and> (csvField v = v) = (CHR '','' \<notin> set v \<and> NL \<notin> set v \<and> DQ \<notin> set v)"
proof (intro conjI)
  show "csv_decode_field (csvField v @ rest) = Some (v, rest)"
  proof (cases "CHR '','' \<in> set v \<or> NL \<in> set v \<or> DQ \<in> set v")
    case True
    from csv_quoted_doubled [OF field_end_not_quote [OF assms(2)], of "[]" v]
    show ?thesis using True assms(2) by (simp add: csvField_def csv_decode_field_def)
  next
    case False
    then show ?thesis using csv_bare_field [of v rest] assms by (simp add: csvField_def)
  qed
  show "(csvField v = [DQ] @ replaceAll DQ [DQ, DQ] v @ [DQ])
        = (CHR '','' \<in> set v \<or> NL \<in> set v \<or> DQ \<in> set v)"
    by (rule csvField_quoted_iff)
  show "(csvField v = v) = (CHR '','' \<notin> set v \<and> NL \<notin> set v \<and> DQ \<notin> set v)"
  proof -
    have "length v < length ([DQ] @ replaceAll DQ [DQ, DQ] v @ [DQ])"
      using replaceAll_length [of v] by simp
    then have "[DQ] @ replaceAll DQ [DQ, DQ] v @ [DQ] \<noteq> v" by (metis less_irrefl)
    then show ?thesis by (simp add: csvField_def)
  qed
qed

theorem csvField_roundtrip_witness:
  "(CR \<notin> set (''a,b'' @ [DQ] @ ''c'' @ [NL] @ ''d'') \<and> field_end '',x'')
   \<and> csvField (''a,b'' @ [DQ] @ ''c'' @ [NL] @ ''d'')
     = [DQ] @ ''a,b'' @ [DQ, DQ] @ ''c'' @ [NL] @ ''d'' @ [DQ]
   \<and> csv_decode_field (csvField (''a,b'' @ [DQ] @ ''c'' @ [NL] @ ''d'') @ '',x'')
     = Some (''a,b'' @ [DQ] @ ''c'' @ [NL] @ ''d'', '',x'')
   \<and> csv_decode_field (csvField (''a'' @ [CR] @ '',b'') @ [NL])
     = Some (''a'' @ [CR] @ '',b'', [NL])"
proof -
  let ?v = "''a,b'' @ [DQ] @ ''c'' @ [NL] @ ''d''"
  let ?w = "''a'' @ [CR] @ '',b''"
  have h: "CR \<notin> set ?v \<and> field_end '',x''" by (simp add: field_end_def)
  have a: "csvField ?v = [DQ] @ ''a,b'' @ [DQ, DQ] @ ''c'' @ [NL] @ ''d'' @ [DQ]"
    by (simp add: csvField_def replaceAll_def)
  have b: "csv_decode_field (csvField ?v @ '',x'') = Some (?v, '',x'')"
    using csvField_roundtrip [of ?v "'',x''"] h by blast
  have "CHR '','' \<in> set ?w" by simp
  moreover have "field_end [NL]" by (simp add: field_end_def)
  ultimately have c: "csv_decode_field (csvField ?w @ [NL]) = Some (?w, [NL])"
    using csvField_roundtrip [of ?w "[NL]"] by blast
  show ?thesis using h a b c by blast
qed

text \<open>
  The claim C6 as stated (for every string value) fails for a value with a carriage
  return and no comma, newline or quote: it is written bare, and the decoder ends the field
  at the carriage return. Such a value reaches the encoder: \<open>arabic_text\<close> is stored as
  the API gives it, and \<open>translation\<close> and \<open>footnotes\<close> with their line feeds only
  replaced. For a verse whose Arabic text is \<open>x\<close>, a carriage return, \<open>y\<close>, the row of
  full_translation.csv has the text bare.
\<close>

theorem csvField_bare_carriage_return:
  "csvField (''x'' @ [CR] @ ''y'') = ''x'' @ [CR] @ ''y''
   \<and> csv_decode_field (csvField (''x'' @ [CR] @ ''y'') @ '',t'') = Some (''x'', [CR] @ ''y,t'')
   \<and> (case processTranslation cr_verse_api entry1 [] empty_fs of
         (r, buffer, fs) \<Rightarrow>
           files fs [''datasets'', ''en'', ''k1'', ''full_translation.csv'']
             = Some (''surah,ayah,arabic_text,translation,footnotes'' @ [NL]
                     @ ''1,1,x'' @ [CR] @ ''y,t,'' @ [NL]))"
  by code_simp

subsection \<open>The verse fetcher\<close>

lemma fetch_surah_cases:
  "fetch_surah remote k n acc = Inr x \<Longrightarrow> x = acc @ surah_verses (remote (surah_endpoint k n))"
  "fetch_surah remote k n acc = Inl e \<Longrightarrow> surah_verses (remote (surah_endpoint k n)) = []"
  by (auto simp: fetch_surah_def fetchAPI_def surah_verses_def
      split: sum.splits jsval.splits elim!: getProp.elims)

lemma surah_loop_concat:
  "n \<le> 115 \<Longrightarrow> surah_loop remote k n acc
     = Inr (acc @ concat (map (\<lambda>m. surah_verses (remote (surah_endpoint k m))) [n..<115]))"
proof (induction remote k n acc rule: surah_loop.induct)
  case (1 remote k n acc)
  show ?case
  proof (cases "n \<le> 114")
    case False
    with "1.prems" have "n = 115" by simp
    then show ?thesis by (simp add: surah_loop.simps)
  next
    case True
    then have up: "[n..<115] = n # [Suc n..<115]" by (simp add: upt_conv_Cons)
    show ?thesis
    proof (cases "fetch_surah remote k n acc")
      case (Inl e)
      with True "1.IH"(1) [OF True Inl] fetch_surah_cases(2) [OF Inl] up
      show ?thesis by (simp add: surah_loop.simps [of remote k n acc])
    next
      case (Inr x)
      with True "1.IH"(2) [OF True Inr] fetch_surah_cases(1) [OF Inr] up
      show ?thesis by (simp add: surah_loop.simps [of remote k n acc])
    qed
  qed
qed

text \<open>
  C8. For every translation key and every behaviour of the remote API,
  \<open>getTranslationForAllSurahs\<close> returns (it does not throw), and what it returns is the
  concatenation, over the surah numbers 1 to 114 in ascending order, of what each surah's
  request contributes: the verse list of a successful response, in the order of the
  response, and nothing for a request that fails or a response without a result list.
\<close>

theorem getTranslationForAllSurahs_concat:
  "getTranslationForAllSurahs remote translationKey
     = Inr (concat (map (\<lambda>n. surah_verses (remote (surah_endpoint translationKey n))) [1..<115]))"
  by (simp add: getTranslationForAllSurahs_def surah_loop_concat)

subsection \<open>The chunked tabular writer\<close>

lemma sub_chunks_Nil: "sub_chunks c [] = []"
  by (simp add: sub_chunks.simps [of c "[]"])

lemma sub_chunks_step:
  "xs \<noteq> [] \<Longrightarrow> 0 < c \<Longrightarrow> sub_chunks c xs = take c xs # sub_chunks c (drop c xs)"
  by (simp add: sub_chunks.simps [of c xs])

lemma sub_chunks_zero: "sub_chunks 0 xs = []"
  by (simp add: sub_chunks.simps [of 0 xs])

lemma sub_chunks_concat: "0 < c \<Longrightarrow> concat (sub_chunks c xs) = xs"
proof (induction c xs rule: sub_chunks.induct)
  case (1 c xs)
  then show ?case by (cases "xs = []") (simp_all add: sub_chunks_Nil sub_chunks_step)
qed

lemma sub_chunks_bounded: "list_all (\<lambda>ch. ch \<noteq> [] \<and> length ch \<le> c) (sub_chunks c xs)"
proof (induction c xs rule: sub_chunks.induct)
  case (1 c xs)
  show ?case
  proof (cases "xs = [] \<or> c = 0")
    case True
    then show ?thesis by (auto simp: sub_chunks_Nil sub_chunks_zero)
  next
    case False
    with "1.IH" show ?thesis by (simp add: sub_chunks_step)
  qed
qed

lemma saveChunkedData_loop_chunks:
  "0 < c \<Longrightarrow> saveChunkedData_loop d c i fs
     = Some (foldl (\<lambda>f ch. appendFile all_translations_csv (objectsToCSV ch False) f) fs
               (sub_chunks c (drop i d)))"
proof (induction d c i fs rule: saveChunkedData_loop.induct)
  case (1 d c i fs)
  show ?case
  proof (cases "i < length d")
    case False
    then show ?thesis
      by (simp add: saveChunkedData_loop.simps [of d c i fs] sub_chunks_Nil)
  next
    case True
    then have ne: "drop i d \<noteq> []" by simp
    have sc: "sub_chunks c (drop i d) = slice i (i + c) d # sub_chunks c (drop (i + c) d)"
      using ne "1.prems" by (simp add: sub_chunks_step slice_def add.commute)
    from "1.IH" [OF True _ "1.prems"] "1.prems" True sc
    show ?thesis by (simp add: saveChunkedData_loop.simps [of d c i fs])
  qed
qed

lemma saveChunkedData_returns:
  "0 < c \<Longrightarrow> \<exists>fs'. saveChunkedData d c first fs = Some fs'"
  by (cases d) (simp_all add: saveChunkedData_def saveChunkedData_loop_chunks)

lemma saveChunkedData_eq:
  "saveChunkedData buffer 1000 isFirstChunk fs
     = Some (foldl (\<lambda>f ch. appendFile all_translations_csv (objectsToCSV ch False) f)
               (if isFirstChunk \<and> buffer \<noteq> []
                then writeFile all_translations_csv (join '','' (map fst (hd buffer)) @ [NL]) fs
                else fs)
               (sub_chunks 1000 buffer))"
  by (cases buffer) (simp_all add: saveChunkedData_def saveChunkedData_loop_chunks sub_chunks_Nil)

lemma appendFile_same:
  "files (appendFile p s fs) p = Some ((case files fs p of None \<Rightarrow> [] | Some old \<Rightarrow> old) @ s)"
  by (simp add: appendFile_def split: option.splits)

lemma appendFile_fold_content:
  "files (foldl (\<lambda>f ch. appendFile p (g ch) f) fs chs) p
     = (if chs = [] then files fs p
        else Some ((case files fs p of None \<Rightarrow> [] | Some old \<Rightarrow> old) @ concat (map g chs)))"
proof (induction chs arbitrary: fs)
  case Nil
  then show ?case by simp
next
  case (Cons ch chs)
  show ?case by (simp add: Cons.IH appendFile_same)
qed

lemma appendFile_fold_other:
  "q \<noteq> p \<Longrightarrow> files (foldl (\<lambda>f ch. appendFile p (g ch) f) fs chs) q = files fs q"
  by (induction chs arbitrary: fs) (simp_all add: appendFile_def)

lemma objectsToCSV_uniform:
  "ch \<noteq> [] \<Longrightarrow> list_all (\<lambda>row. map fst row = ks) ch \<Longrightarrow>
   objectsToCSV ch False = concat (map (csvRow ks) ch)"
  by (cases ch) (simp_all add: objectsToCSV_def)

lemma chunks_rows:
  "0 < c \<Longrightarrow> list_all (\<lambda>row. map fst row = ks) xs \<Longrightarrow>
   concat (map (\<lambda>ch. objectsToCSV ch False) (sub_chunks c xs)) = concat (map (csvRow ks) xs)"
proof (induction c xs rule: sub_chunks.induct)
  case (1 c xs)
  show ?case
  proof (cases "xs = []")
    case True
    then show ?thesis by (simp add: sub_chunks_Nil)
  next
    case False
    have u: "list_all (\<lambda>row. map fst row = ks) (take c xs)"
      "list_all (\<lambda>row. map fst row = ks) (drop c xs)"
      using "1.prems"(2) by (auto simp: list_all_iff dest: in_set_takeD in_set_dropD)
    have tne: "take c xs \<noteq> []" using False "1.prems"(1) by simp
    have "concat (map (csvRow ks) xs)
        = concat (map (csvRow ks) (take c xs)) @ concat (map (csvRow ks) (drop c xs))"
      by (metis append_take_drop_id concat_append map_append)
    with "1.IH" [OF _ "1.prems"(1) u(2)] False "1.prems"(1) objectsToCSV_uniform [OF tne u(1)]
    show ?thesis by (simp add: sub_chunks_step)
  qed
qed

lemma saveChunkedData_content:
  assumes u: "list_all (\<lambda>row. map fst row = ks) buffer"
  shows "\<exists>fs'. saveChunkedData buffer 1000 first fs = Some fs'
     \<and> files fs' all_translations_csv
         = (if buffer = [] then files fs all_translations_csv
            else Some ((if first then join '','' ks @ [NL]
                        else (case files fs all_translations_csv of None \<Rightarrow> [] | Some old \<Rightarrow> old))
                       @ concat (map (csvRow ks) buffer)))"
proof (cases buffer)
  case Nil
  then show ?thesis by (simp add: saveChunkedData_def)
next
  case (Cons r rs)
  then have ks: "map fst r = ks" using u by simp
  have ne: "sub_chunks 1000 buffer \<noteq> []" using Cons by (simp add: sub_chunks_step)
  have rows: "concat (map (\<lambda>ch. objectsToCSV ch False) (sub_chunks 1000 buffer))
      = concat (map (csvRow ks) buffer)"
    using chunks_rows [of 1000 ks buffer] u by simp
  show ?thesis
    using Cons ks ne rows
    by (simp add: saveChunkedData_def saveChunkedData_loop_chunks appendFile_fold_content writeFile_def
        del: list.map concat.simps)
qed

lemma flushes_content:
  "list_all (\<lambda>row. map fst row = ks) (concat bs) \<Longrightarrow>
   files fs all_translations_csv = Some old \<Longrightarrow>
   \<exists>fs'. flushes bs False fs = Some fs'
     \<and> files fs' all_translations_csv = Some (old @ concat (map (csvRow ks) (concat bs)))"
proof (induction bs arbitrary: fs old)
  case Nil
  then show ?case by simp
next
  case (Cons b bs)
  from Cons.prems(1) have ub: "list_all (\<lambda>row. map fst row = ks) b"
    and ubs: "list_all (\<lambda>row. map fst row = ks) (concat bs)" by simp_all
  from saveChunkedData_content [OF ub, of False fs] Cons.prems(2)
  obtain fs1 where s: "saveChunkedData b 1000 False fs = Some fs1"
    and c: "files fs1 all_translations_csv = Some (old @ concat (map (csvRow ks) b))"
    by (auto split: if_splits)
  from Cons.IH [OF ubs c] s show ?case by auto
qed

text \<open>
  C5 (as amended). For every sequence of buffer flushes in one run whose first buffer is
  not empty (the first flush with the first-chunk flag set, the later ones with it unset)
  and whose records all have the same keys \<open>ks\<close>, the flushes return and leave
  all_translations.csv holding the header row of \<open>ks\<close> once, at its start, followed by
  one row per record of the buffers, in order: as many data rows as the buffers hold
  records. Every flush appends its buffer in sub-chunks, pieces of at most 1000 rows that
  make up the buffer.
\<close>

theorem saveChunkedData_flushes:
  assumes ne: "b \<noteq> []"
    and u: "list_all (\<lambda>row. map fst row = ks) (concat (b # bs))"
  shows "(\<exists>fs'. flushes (b # bs) True fs = Some fs'
           \<and> files fs' all_translations_csv
               = Some (join '','' ks @ [NL] @ concat (map (csvRow ks) (concat (b # bs)))))
         \<and> length (map (csvRow ks) (concat (b # bs))) = sum_list (map length (b # bs))
         \<and> saveChunkedData buffer 1000 isFirstChunk fs2
             = Some (foldl (\<lambda>f ch. appendFile all_translations_csv (objectsToCSV ch False) f)
                       (if isFirstChunk \<and> buffer \<noteq> []
                        then writeFile all_translations_csv (join '','' (map fst (hd buffer)) @ [NL]) fs2
                        else fs2)
                       (sub_chunks 1000 buffer))
         \<and> list_all (\<lambda>ch. ch \<noteq> [] \<and> length ch \<le> 1000) (sub_chunks 1000 buffer)
         \<and> concat (sub_chunks 1000 buffer) = buffer"
proof (intro conjI)
  from u have ub: "list_all (\<lambda>row. map fst row = ks) b"
    and ubs: "list_all (\<lambda>row. map fst row = ks) (concat bs)" by simp_all
  from saveChunkedData_content [OF ub, of True fs] ne
  obtain fs1 where s: "saveChunkedData b 1000 True fs = Some fs1"
    and c: "files fs1 all_translations_csv = Some ((join '','' ks @ [NL]) @ concat (map (csvRow ks) b))"
    by auto
  from flushes_content [OF ubs c] s
  show "\<exists>fs'. flushes (b # bs) True fs = Some fs'
           \<and> files fs' all_translations_csv
               = Some (join '','' ks @ [NL] @ concat (map (csvRow ks) (concat (b # bs))))"
    by auto
  show "length (map (csvRow ks) (concat (b # bs))) = sum_list (map length (b # bs))"
    by (simp add: length_concat)
  show "saveChunkedData buffer 1000 isFirstChunk fs2
             = Some (foldl (\<lambda>f ch. appendFile all_translations_csv (objectsToCSV ch False) f)
                       (if isFirstChunk \<and> buffer \<noteq> []
                        then writeFile all_translations_csv (join '','' (map fst (hd buffer)) @ [NL]) fs2
                        else fs2)
                       (sub_chunks 1000 buffer))"
    by (cases buffer) (simp_all add: saveChunkedData_def saveChunkedData_loop_chunks sub_chunks_Nil)
  show "list_all (\<lambda>ch. ch \<noteq> [] \<and> length ch \<le> 1000) (sub_chunks 1000 buffer)"
    by (rule sub_chunks_bounded)
  show "concat (sub_chunks 1000 buffer) = buffer"
    by (simp add: sub_chunks_concat)
qed

theorem saveChunkedData_flushes_witness:
  "\<exists>fs'. flushes [take 2 csv_rows, [], drop 2 csv_rows] True empty_fs = Some fs'
     \<and> files fs' all_translations_csv
          = Some (''surah,ayah'' @ [NL] @ ''1,1'' @ [NL] @ ''1,2'' @ [NL] @ ''1,3'' @ [NL])"
proof -
  have ne: "take 2 csv_rows \<noteq> []" by (simp add: csv_rows_def)
  have u: "list_all (\<lambda>row. map fst row = [''surah'', ''ayah''])
             (concat (take 2 csv_rows # [[], drop 2 csv_rows]))"
    by (simp add: csv_rows_def)
  have rows: "concat (map (csvRow [''surah'', ''ayah'']) (concat (take 2 csv_rows # [[], drop 2 csv_rows])))
      = ''1,1'' @ [NL] @ ''1,2'' @ [NL] @ ''1,3'' @ [NL]"
    by code_simp
  have "\<exists>fs'. flushes (take 2 csv_rows # [[], drop 2 csv_rows]) True empty_fs = Some fs'
           \<and> files fs' all_translations_csv
               = Some (join '','' [''surah'', ''ayah''] @ [NL]
                  @ concat (map (csvRow [''surah'', ''ayah'']) (concat (take 2 csv_rows # [[], drop 2 csv_rows]))))"
    using saveChunkedData_flushes [OF ne u, of empty_fs] by blast
  then show ?thesis unfolding rows by (simp del: flushes.simps)
qed

text \<open>
  The claim C5 as stated (for every sequence of flushes) fails where the first buffer is
  empty: the flush with the first-chunk flag returns before it writes the header. The run
  whose only translation comes back without verses makes exactly this sequence, one flush
  of the empty buffer at the last translation: it completes, and no file
  all_translations.csv exists, where the claim has a file with one header row.
\<close>

theorem saveChunkedData_empty_first_flush:
  "(case flushes [[]] True empty_fs of
      Some fs' \<Rightarrow> files fs' all_translations_csv = None
    | None \<Rightarrow> False)
   \<and> (case main failing_api [entry1] (JArr []) empty_fs of
         Some (Completed st) \<Rightarrow>
           files (fsys st) all_translations_csv = None \<and> errorCount st = 1
           \<and> firstCSVChunk st = False
       | _ \<Rightarrow> False)"
  by code_simp

subsection \<open>Processing one translation\<close>

text \<open>
  C1 (the code departs from the claim). The processed rows carry the ayah number under
  the key \<open>ayah\<close>; the parallel corpus, the consolidated buffer and the JSON document
  read it back as \<open>ayah.aya\<close>, a key the processed rows do not have. Evaluated for a
  translation with the one verse 1:1: full_translation.csv has the ayah number, the row of
  parallel_corpus.csv has an empty ayah column, and the \<open>ayah\<close> of the buffered row and
  of the document's entry is \<open>undefined\<close>.
\<close>

theorem processTranslation_drops_ayah:
  "(case processTranslation one_verse_api entry1 [] empty_fs of
      (r, buffer, fs) \<Rightarrow>
        files fs [''datasets'', ''en'', ''k1'', ''full_translation.csv'']
          = Some (''surah,ayah,arabic_text,translation,footnotes'' @ [NL]
                  @ ''1,1,bismillah,In the name of God,'' @ [NL])
        \<and> files fs [''datasets'', ''en'', ''k1'', ''parallel_corpus.csv'']
          = Some (''surah,ayah,arabic,translation'' @ [NL]
                  @ ''1,,bismillah,In the name of God'' @ [NL])
        \<and> map (\<lambda>row. field row ''ayah'') buffer = [JUndefined]
        \<and> (case r of
              POk k l n doc \<Rightarrow> map (\<lambda>(s, es). (s, map ayah es)) (surahs doc) = [(''1'', [JUndefined])]
            | _ \<Rightarrow> False))"
  by code_simp

text \<open>
  C4 (as amended). For every translation whose verse fetch returns zero verses,
  \<open>processTranslation\<close> creates the translation's directory and writes metadata.json
  there, writes nothing else and adds nothing to the buffer, and returns \<open>null\<close>; the
  iteration of the main loop returns, adds one to the error count, leaves the success
  count and the results unchanged, and the loop goes on with the next translation.
\<close>

theorem processTranslation_zero_verses:
  assumes k: "field tr ''key'' = JStr k"
    and l: "field tr ''language_iso_code'' = JStr l"
    and z: "getTranslationForAllSurahs remote k = Inr []"
  shows "processTranslation remote tr buffer fs
           = (PNull, buffer,
              writeFile [''datasets'', l, k, ''metadata.json''] (JSON_stringify (JObj tr))
                (ensureDir [''datasets'', l, k] fs))
         \<and> (\<exists>st'. main_step remote ntotal i tr st = Some st'
               \<and> errorCount st' = errorCount st + 1
               \<and> successCount st' = successCount st
               \<and> results st' = results st
               \<and> main_loop remote ntotal i (tr # rest) st = main_loop remote ntotal (i + 1) rest st')"
proof
  show pt: "processTranslation remote tr buffer fs
           = (PNull, buffer,
              writeFile [''datasets'', l, k, ''metadata.json''] (JSON_stringify (JObj tr))
                (ensureDir [''datasets'', l, k] fs))" for buffer fs
    using k l z by (simp add: processTranslation_def)
  let ?data = "allTranslationsData st"
  let ?fs1 = "writeFile [''datasets'', l, k, ''metadata.json''] (JSON_stringify (JObj tr))
                (ensureDir [''datasets'', l, k] (fsys st))"
  obtain fsx where fsx: "saveChunkedData ?data 1000 (firstCSVChunk st) fsy = Some (fsx fsy)" for fsy
    using saveChunkedData_returns [of 1000 ?data "firstCSVChunk st"] by (metis zero_less_numeral)
  have "\<exists>st'. main_step remote ntotal i tr st = Some st'
               \<and> errorCount st' = errorCount st + 1
               \<and> successCount st' = successCount st
               \<and> results st' = results st"
    unfolding main_step_def using pt [of ?data "fsys st"] fsx
    by (simp add: Let_def split: prod.splits)
  then show "\<exists>st'. main_step remote ntotal i tr st = Some st'
               \<and> errorCount st' = errorCount st + 1
               \<and> successCount st' = successCount st
               \<and> results st' = results st
               \<and> main_loop remote ntotal i (tr # rest) st = main_loop remote ntotal (i + 1) rest st'"
    by auto
qed

lemma failing_fetch: "getTranslationForAllSurahs failing_api k = Inr []"
  by (simp add: getTranslationForAllSurahs_def surah_loop_concat surah_verses_def failing_api_def)

theorem processTranslation_zero_verses_witness:
  "getTranslationForAllSurahs failing_api ''k1'' = Inr []
   \<and> fst (processTranslation failing_api entry1 [] empty_fs) = PNull
   \<and> dom (files (snd (snd (processTranslation failing_api entry1 [] empty_fs))))
       = {[''datasets'', ''en'', ''k1'', ''metadata.json'']}"
proof -
  have k: "field entry1 ''key'' = JStr ''k1''" by (simp add: entry1_def field_def)
  have l: "field entry1 ''language_iso_code'' = JStr ''en''" by (simp add: entry1_def field_def)
  note z = failing_fetch [of "''k1''"]
  from processTranslation_zero_verses [OF k l z, of "[]" empty_fs]
  show ?thesis using z by (simp add: writeFile_def ensureDir_def empty_fs_def)
qed

text \<open>
  The claim C4 as stated (no artifact is written for such a translation) fails: with a
  remote that fails on every request, the result is \<open>null\<close> and metadata.json is written.
\<close>

theorem processTranslation_zero_verses_writes_metadata:
  "fst (processTranslation failing_api entry1 [] empty_fs) = PNull
   \<and> files (snd (snd (processTranslation failing_api entry1 [] empty_fs)))
       [''datasets'', ''en'', ''k1'', ''metadata.json''] = Some (JSON_stringify (JObj entry1))"
  by code_simp

subsection \<open>Flattening and regrouping\<close>

lemma map_of_insert_key:
  "map_of kvs k = None \<Longrightarrow> map_of (insert_key k v kvs) = (map_of kvs)(k \<mapsto> v)"
  by (induction kvs) (auto simp: fun_upd_twist split: if_splits)

lemma map_of_update_group:
  "map_of (map (\<lambda>(k', ys). if k' = k then (k', ys @ [x]) else (k', ys)) g) k'
     = (if k' = k then map_option (\<lambda>ys. ys @ [x]) (map_of g k) else map_of g k')"
  by (induction g) auto

lemma map_of_group_push:
  "map_of (group_push g k x)
     = (map_of g)(k \<mapsto> (case map_of g k of None \<Rightarrow> [] | Some xs \<Rightarrow> xs) @ [x])"
proof (cases "map_of g k")
  case None
  then show ?thesis by (simp add: group_push_def map_of_insert_key)
next
  case (Some xs)
  then show ?thesis by (auto simp: group_push_def map_of_update_group)
qed

lemma regroup_rows_of_surah:
  assumes key: "\<And>e. toString (field (r e) ''surah'') = k"
    and ne: "es \<noteq> []"
  shows "map_of (foldl (\<lambda>groups row. group_push groups (toString (field row ''surah'')) (entry_of_row row))
            g (map r es))
       = (map_of g)(k \<mapsto> (case map_of g k of None \<Rightarrow> [] | Some xs \<Rightarrow> xs) @ map (\<lambda>e. entry_of_row (r e)) es)"
  using ne
proof (induction es rule: rev_nonempty_induct)
  case (single e)
  then show ?case by (simp add: map_of_group_push key)
next
  case (snoc e es)
  then show ?case by (auto simp add: map_of_group_push key fun_eq_iff)
qed

lemma entry_of_flat_row:
  "is_string (footnotes e) \<Longrightarrow> entry_of_row (flat_row d k e) = e"
  by (cases "footnotes e") (auto simp: entry_of_row_def flat_row_def field_def js_or_def is_string_def)

lemma key_of_flat_row: "toString (field (flat_row d k e) ''surah'') = k"
  by (simp add: flat_row_def field_def)

lemma regroup_flat:
  assumes "distinct (map fst kvs)"
    and "list_all (\<lambda>(k, es). es \<noteq> [] \<and> list_all (\<lambda>e. is_string (footnotes e)) es) kvs"
    and "\<forall>k \<in> fst ` set kvs. map_of g k = None"
  shows "map_of (foldl (\<lambda>groups row. group_push groups (toString (field row ''surah'')) (entry_of_row row))
            g (concat (map (\<lambda>(k, es). map (flat_row d k) es) kvs)))
       = map_of g ++ map_of kvs"
  using assms
proof (induction kvs arbitrary: g)
  case Nil
  then show ?case by simp
next
  case (Cons kv kvs)
  obtain k es where kv: "kv = (k, es)" by (cases kv)
  let ?push = "\<lambda>groups row. group_push groups (toString (field row ''surah'')) (entry_of_row row)"
  let ?g1 = "foldl ?push g (map (flat_row d k) es)"
  from Cons.prems kv have es: "es \<noteq> []" and str: "list_all (\<lambda>e. is_string (footnotes e)) es"
    and gk: "map_of g k = None" and knot: "k \<notin> fst ` set kvs" by auto
  have "map (\<lambda>e. entry_of_row (flat_row d k e)) es = es"
    using str by (induction es) (simp_all add: entry_of_flat_row)
  then have g1: "map_of ?g1 = (map_of g)(k \<mapsto> es)"
    using regroup_rows_of_surah [of "flat_row d k" k es g, OF key_of_flat_row es] gk by simp
  have fresh: "\<forall>k' \<in> fst ` set kvs. map_of ?g1 k' = None"
    using Cons.prems(3) knot g1 by auto
  have "map_of (foldl ?push g (concat (map (\<lambda>(k, es). map (flat_row d k) es) (kv # kvs))))
      = map_of (foldl ?push ?g1 (concat (map (\<lambda>(k, es). map (flat_row d k) es) kvs)))"
    using kv by simp
  also have "\<dots> = map_of ?g1 ++ map_of kvs"
    using Cons.IH [of ?g1] Cons.prems(1,2) fresh by simp
  also have "\<dots> = map_of g ++ map_of (kv # kvs)"
    using g1 kv knot by (force simp: map_add_def fun_eq_iff split: option.splits dest!: map_of_SomeD)
  finally show ?case .
qed


text \<open>
  C7 (as amended). For every translation document whose surahs each have at least one
  ayah entry, with a string for the footnotes of every entry (the surah keys being those
  of an object, hence distinct), flattening the document and grouping the flat rows by
  their surah value again gives the document's mapping from surah to ayah list back: the
  same surah keys, and under each key the same entries (ayah, arabic_text, translation,
  footnotes) in the same order.
\<close>

theorem flatten_regroup_roundtrip:
  assumes dist: "distinct (map fst (surahs d))"
    and wf: "list_all (\<lambda>(surahNum, ayahs). ayahs \<noteq> [] \<and> list_all (\<lambda>e. is_string (footnotes e)) ayahs)
               (surahs d)"
  shows "map_of (regroup_by_surah (flattenTranslationForCSV d)) = map_of (surahs d)
         \<and> fst ` set (regroup_by_surah (flattenTranslationForCSV d)) = fst ` set (surahs d)"
proof -
  have eq: "map_of (regroup_by_surah (flattenTranslationForCSV d)) = map_of (surahs d)"
    using regroup_flat [OF dist wf, of "[]" d]
    by (simp add: regroup_by_surah_def flattenTranslationForCSV_def)
  then have "dom (map_of (regroup_by_surah (flattenTranslationForCSV d))) = dom (map_of (surahs d))"
    by simp
  then have "fst ` set (regroup_by_surah (flattenTranslationForCSV d)) = fst ` set (surahs d)"
    by (simp only: dom_map_of_conv_image_fst)
  with eq show ?thesis by (rule conjI)
qed

theorem flatten_regroup_roundtrip_witness:
  "distinct (map fst (surahs two_surahs_doc))
   \<and> list_all (\<lambda>(surahNum, ayahs). ayahs \<noteq> [] \<and> list_all (\<lambda>e. is_string (footnotes e)) ayahs)
         (surahs two_surahs_doc)
   \<and> length (flattenTranslationForCSV two_surahs_doc) = 3
   \<and> map_of (regroup_by_surah (flattenTranslationForCSV two_surahs_doc)) = map_of (surahs two_surahs_doc)"
proof -
  have dist: "distinct (map fst (surahs two_surahs_doc))"
    by (simp add: two_surahs_doc_def)
  have wf: "list_all (\<lambda>(surahNum, ayahs). ayahs \<noteq> [] \<and> list_all (\<lambda>e. is_string (footnotes e)) ayahs)
         (surahs two_surahs_doc)"
    by (simp add: two_surahs_doc_def is_string_def)
  have len: "length (flattenTranslationForCSV two_surahs_doc) = 3"
    by (simp add: two_surahs_doc_def flattenTranslationForCSV_def)
  from flatten_regroup_roundtrip [OF dist wf] dist wf len show ?thesis by blast
qed

text \<open>
  The claim C7 as stated (for every document) fails for a surah without ayah entries: it
  contributes no flat row, so its key is missing after the regrouping.
\<close>

theorem flatten_regroup_empty_surah:
  "flattenTranslationForCSV empty_surah_doc = []
   \<and> regroup_by_surah (flattenTranslationForCSV empty_surah_doc) = []
   \<and> surahs empty_surah_doc = [(''1'', [])]
   \<and> map_of (regroup_by_surah (flattenTranslationForCSV empty_surah_doc)) \<noteq> map_of (surahs empty_surah_doc)"
proof -
  have a: "flattenTranslationForCSV empty_surah_doc = []"
    by (simp add: flattenTranslationForCSV_def empty_surah_doc_def)
  have b: "regroup_by_surah (flattenTranslationForCSV empty_surah_doc) = []"
    by (simp add: a regroup_by_surah_def)
  have c: "surahs empty_surah_doc = [(''1'', [])]"
    by (simp add: empty_surah_doc_def)
  have "map_of (regroup_by_surah (flattenTranslationForCSV empty_surah_doc)) ''1''
        \<noteq> map_of (surahs empty_surah_doc) ''1''"
    by (simp add: b c)
  then have d: "map_of (regroup_by_surah (flattenTranslationForCSV empty_surah_doc)) \<noteq> map_of (surahs empty_surah_doc)"
    by metis
  show ?thesis using a b c d by blast
qed

subsection \<open>Writing the JSON array and reading it back\<close>

text \<open>
  C3 (the code departs from the claim). The writer leaves the array of two documents as
  \<open>two_docs_file\<close>. Read in one piece, the file yields both documents. Read in pieces
  of the first document's length plus one, the first read ends with the closing brace of
  the first document; the next chunk starts with the comma and the newline that separate
  the documents, the scan keeps the start of the object at the comma, \<open>JSON.parse\<close>
  rejects the text from the comma to the closing brace, and the second document is
  dropped.
\<close>

theorem readJsonInChunks_drops_document:
  "files (saveJsonData [small_doc ''a'', small_doc ''b''] True True empty_fs) all_translations_json
     = Some two_docs_file
   \<and> readJsonInChunks JSON_parse (length two_docs_file) two_docs_file
     = [document_json (small_doc ''a''), document_json (small_doc ''b'')]
   \<and> readJsonInChunks JSON_parse (Suc (length (JSON_stringify (document_json (small_doc ''a''))))) two_docs_file
     = [document_json (small_doc ''a'')]"
  by code_simp

subsection \<open>The streaming JSON array writer\<close>

lemma saveJsonData_loop_done:
  "\<not> i < length docs \<Longrightarrow> saveJsonData_loop docs final i fs = fs"
  by (simp add: saveJsonData_loop.simps [of docs final i fs])

lemma saveJsonData_loop_content:
  "i < length docs \<Longrightarrow>
   files (saveJsonData_loop docs final i fs) all_translations_json
     = Some ((case files fs all_translations_json of None \<Rightarrow> [] | Some old \<Rightarrow> old)
             @ concat (map (\<lambda>j. JSON_stringify (document_json (docs ! j))
                                @ (if \<not> (int j = int (length docs) - 1 \<and> final)
                                   then '','' @ [NL] else [NL]))
                         [i..<length docs]))"
proof (induction docs final i fs rule: saveJsonData_loop.induct)
  case (1 docs final i fs)
  let ?item = "\<lambda>j. JSON_stringify (document_json (docs ! j))
                     @ (if \<not> (int j = int (length docs) - 1 \<and> final) then '','' @ [NL] else [NL])"
  let ?fs' = "appendFile all_translations_json (?item i) fs"
  have step: "saveJsonData_loop docs final i fs = saveJsonData_loop docs final (i + 1) ?fs'"
    using "1.prems" by (simp add: saveJsonData_loop.simps [of docs final i fs])
  have up: "[i..<length docs] = i # [i + 1..<length docs]"
    using "1.prems" by (simp add: upt_conv_Cons)
  have here: "files ?fs' all_translations_json
      = Some ((case files fs all_translations_json of None \<Rightarrow> [] | Some old \<Rightarrow> old) @ ?item i)"
    by (rule appendFile_same)
  let ?old = "case files fs all_translations_json of None \<Rightarrow> [] | Some old \<Rightarrow> old"
  show ?case
  proof (cases "i + 1 < length docs")
    case True
    have "files (saveJsonData_loop docs final (i + 1) ?fs') all_translations_json
        = Some ((case files ?fs' all_translations_json of None \<Rightarrow> [] | Some old \<Rightarrow> old)
             @ concat (map ?item [i + 1..<length docs]))"
      using "1.IH" [OF "1.prems"] True by simp
    also have "\<dots> = Some ((?old @ ?item i) @ concat (map ?item [i + 1..<length docs]))"
      by (simp only: here option.case)
    also have "\<dots> = Some (?old @ concat (map ?item (i # [i + 1..<length docs])))"
      by (simp only: list.map concat.simps append_assoc)
    finally show ?thesis by (simp only: step up)
  next
    case False
    then have d: "saveJsonData_loop docs final (i + 1) ?fs' = ?fs'"
      by (rule saveJsonData_loop_done)
    have e: "[i + 1..<length docs] = []" using False by simp
    have "files (saveJsonData_loop docs final (i + 1) ?fs') all_translations_json
        = Some (?old @ ?item i)"
      by (simp only: d here)
    also have "\<dots> = Some (?old @ concat (map ?item (i # [i + 1..<length docs])))"
      by (simp only: e list.map concat.simps append_Nil2)
    finally show ?thesis by (simp only: step up)
  qed
qed

lemma json_items_not_final:
  "map (\<lambda>j. JSON_stringify (document_json (docs ! j))
              @ (if \<not> (int j = int (length docs) - 1 \<and> False) then '','' @ [NL] else [NL]))
     [0..<length docs]
     = map (\<lambda>d. JSON_stringify (document_json d) @ '','' @ [NL]) docs"
  by (rule nth_equalityI) simp_all

lemma saveJsonData_first_not_final:
  "files (saveJsonData (d # ds) True False fs) all_translations_json
     = Some (''['' @ [NL] @ concat (map (\<lambda>x. JSON_stringify (document_json x) @ '','' @ [NL]) (d # ds)))"
proof -
  have "files (saveJsonData_loop (d # ds) False 0 (writeFile all_translations_json (''['' @ [NL]) fs))
          all_translations_json
        = Some ((''['' @ [NL]) @ concat (map (\<lambda>j. JSON_stringify (document_json ((d # ds) ! j))
              @ (if \<not> (int j = int (length (d # ds)) - 1 \<and> False) then '','' @ [NL] else [NL]))
             [0..<length (d # ds)]))"
    by (subst saveJsonData_loop_content) (simp_all add: writeFile_def)
  then show ?thesis
    by (simp only: json_items_not_final) (simp add: saveJsonData_def)
qed

text \<open>
  \<open>saveJsonData\<close> returns at once on an empty buffer, also at the final flush. After a
  first flush that is not final, a final flush of the empty buffer leaves the file as the
  opening bracket and the documents, each followed by a comma. And the run whose only
  translation has no verses completes, with the final flush made, and has created no file.
\<close>

lemma saveJsonData_empty_final_flush:
  "files (saveJsonData [] False True (saveJsonData (d # ds) True False fs)) all_translations_json
     = Some (''['' @ [NL] @ concat (map (\<lambda>x. JSON_stringify (document_json x) @ '','' @ [NL]) (d # ds)))
   \<and> (case main failing_api [entry1] (JArr []) empty_fs of
         Some (Completed st) \<Rightarrow>
           files (fsys st) all_translations_json = None \<and> errorCount st = 1 \<and> successCount st = 0
       | _ \<Rightarrow> False)"
proof
  show "files (saveJsonData [] False True (saveJsonData (d # ds) True False fs)) all_translations_json
     = Some (''['' @ [NL] @ concat (map (\<lambda>x. JSON_stringify (document_json x) @ '','' @ [NL]) (d # ds)))"
    using saveJsonData_first_not_final [of d ds fs] by (simp add: saveJsonData_def)
  show "case main failing_api [entry1] (JArr []) empty_fs of
         Some (Completed st) \<Rightarrow>
           files (fsys st) all_translations_json = None \<and> errorCount st = 1 \<and> successCount st = 0
       | _ \<Rightarrow> False"
    by code_simp
qed

lemma json_items:
  assumes "docs \<noteq> []"
  shows "concat (map (\<lambda>j. JSON_stringify (document_json (docs ! j))
                   @ (if \<not> (int j = int (length docs) - 1 \<and> final) then '','' @ [NL] else [NL]))
             [0..<length docs])
   = concat (map (\<lambda>d. JSON_stringify (document_json d) @ '','' @ [NL]) (butlast docs))
     @ JSON_stringify (document_json (last docs)) @ (if final then [NL] else '','' @ [NL])"
proof -
  let ?f = "\<lambda>j. JSON_stringify (document_json (docs ! j))
                   @ (if \<not> (int j = int (length docs) - 1 \<and> final) then '','' @ [NL] else [NL])"
  let ?m = "length docs - 1"
  have len: "length docs = Suc ?m" using assms by (cases docs) simp_all
  have first: "map ?f [0..<?m] = map (\<lambda>d. JSON_stringify (document_json d) @ '','' @ [NL]) (butlast docs)"
    by (rule nth_equalityI) (auto simp: nth_butlast)
  have lastd: "docs ! ?m = last docs" using assms by (simp add: last_conv_nth)
  have "map ?f [0..<length docs] = map ?f [0..<?m] @ [?f ?m]"
    by (subst len) simp
  then show ?thesis using first lastd len by simp
qed


lemma saveJsonData_loop_all:
  assumes "docs \<noteq> []"
  shows "files (saveJsonData_loop docs final 0 fs) all_translations_json
      = Some ((case files fs all_translations_json of None \<Rightarrow> [] | Some old \<Rightarrow> old)
              @ concat (map (\<lambda>d. JSON_stringify (document_json d) @ '','' @ [NL]) (butlast docs))
              @ JSON_stringify (document_json (last docs)) @ (if final then [NL] else '','' @ [NL]))"
proof -
  from assms have pos: "0 < length docs" by simp
  show ?thesis unfolding saveJsonData_loop_content [OF pos] json_items [OF assms] ..
qed

lemma saveJsonData_content:
  "files (saveJsonData docs isFirst isFinal fs) all_translations_json
     = json_flush docs isFirst isFinal (files fs all_translations_json)"
proof (cases "docs = []")
  case True
  then show ?thesis by (simp add: saveJsonData_def json_flush_def)
next
  case False
  show ?thesis
    by (cases isFirst; cases isFinal)
       (simp_all add: False saveJsonData_def json_flush_def saveJsonData_loop_all [OF False]
          appendFile_same writeFile_def)
qed

lemma files_writeFile_other: "q \<noteq> p \<Longrightarrow> files (writeFile p c fs) q = files fs q"
  by (simp add: writeFile_def)

lemma files_writeFile_length:
  "length q \<noteq> length p \<Longrightarrow> files (writeFile p c fs) q = files fs q"
  by (auto simp: writeFile_def)

lemma files_ensureDir: "files (ensureDir p fs) = files fs"
  by (simp add: ensureDir_def)

lemma surah_files_other:
  "length q \<noteq> Suc (length dir) \<Longrightarrow>
   files (foldl (\<lambda>f (surahNum, ayahs). writeFile (dir @ [nm surahNum]) (c ayahs) f) fs gs) q = files fs q"
proof (induction gs arbitrary: fs)
  case Nil
  then show ?case by simp
next
  case (Cons g gs)
  obtain k a where g: "g = (k, a)" by (cases g)
  have "q \<noteq> dir @ [nm k]" using Cons.prems by auto
  then show ?case using Cons by (simp add: g files_writeFile_other)
qed

lemma processTranslation_frame:
  "length q = 2 \<Longrightarrow>
   files (snd (snd (processTranslation remote tr buffer fs))) q = files fs q"
  by (auto simp: processTranslation_def Let_def files_writeFile_length files_ensureDir
        surah_files_other [where dir = "[a, b, c]" for a b c, simplified]
      split: jsval.splits sum.splits prod.splits)

lemma processTranslation_result:
  "fst (processTranslation remote tr buffer fs) = fst (processTranslation remote tr buffer' fs')"
  by (auto simp: processTranslation_def Let_def split: jsval.splits sum.splits prod.splits)


lemma saveChunkedData_frame:
  "\<exists>fs'. saveChunkedData buffer 1000 isFirstChunk fs = Some fs'
      \<and> files fs' all_translations_json = files fs all_translations_json"
  by (simp add: saveChunkedData_eq appendFile_fold_other files_writeFile_other)

lemma produced_document_eq:
  "produced_document remote tr
     = (case fst (processTranslation remote tr buffer fs) of POk k l n d \<Rightarrow> Some d | _ \<Rightarrow> None)"
  unfolding produced_document_def
  by (subst processTranslation_result [of remote tr buffer fs "[]" "\<lparr>files = Map.empty, dirs = {}\<rparr>"]) simp

lemma main_step_json:
  "\<exists>st'. main_step remote ntotal i tr st = Some st'
      \<and> json_state st' = json_step ntotal i (produced_document remote tr) (json_state st)"
proof -
  obtain result data1 fs1 where
    pt: "processTranslation remote tr (allTranslationsData st) (fsys st) = (result, data1, fs1)"
    by (cases "processTranslation remote tr (allTranslationsData st) (fsys st)") auto
  have fr1: "files fs1 all_translations_json = files (fsys st) all_translations_json"
    using processTranslation_frame [of all_translations_json remote tr "allTranslationsData st" "fsys st"] pt
    by simp
  have prod: "produced_document remote tr = (case result of POk k l n d \<Rightarrow> Some d | _ \<Rightarrow> None)"
    using produced_document_eq [of remote tr "allTranslationsData st" "fsys st"] pt by simp
  define st1 where "st1 = (case result of
                        PNull \<Rightarrow> st\<lparr>errorCount := errorCount st + 1\<rparr>
                      | PError k l e \<Rightarrow>
                          st\<lparr>results := results st @ [result], errorCount := errorCount st + 1\<rparr>
                      | POk k l n d \<Rightarrow>
                          st\<lparr>results := results st @ [result],
                             allTranslationsJSON := allTranslationsJSON st @ [d],
                             successCount := successCount st + 1\<rparr>)"
  have buf: "allTranslationsJSON st1
      = allTranslationsJSON st @ (case produced_document remote tr of None \<Rightarrow> [] | Some d \<Rightarrow> [d])"
    and first1: "firstJSONChunk st1 = firstJSONChunk st"
    by (simp_all add: st1_def prod split: pt_result.splits)
  define fs2 where "fs2 = (if i mod 5 = 0 \<or> int i = int ntotal - 1
                      then writeFile [''datasets'', ''processing_progress.json'']
                             (JSON_stringify (progress_json ntotal (i + 1) (successCount st1)
                                (errorCount st1) (field tr ''key''))) fs1
                      else fs1)"
  have fr2: "files fs2 all_translations_json = files (fsys st) all_translations_json"
    by (simp add: fs2_def fr1 files_writeFile_other)
  obtain fs3 where
    csv: "saveChunkedData data1 1000 (firstCSVChunk st1) fs2 = Some fs3"
    and fr3: "files fs3 all_translations_json = files fs2 all_translations_json"
    using saveChunkedData_frame [of data1 "firstCSVChunk st1" fs2] by blast
  show ?thesis
    unfolding main_step_def pt prod.case Let_def st1_def [symmetric] fs2_def [symmetric]
    by (simp add: csv json_state_def json_step_def buf first1 fr2 fr3 saveJsonData_content)
qed

lemma main_loop_json:
  "\<exists>st'. main_loop remote ntotal i ts st = Some st'
      \<and> json_state st' = json_run ntotal i (map (produced_document remote) ts) (json_state st)"
proof (induction ts arbitrary: i st)
  case Nil
  then show ?case by simp
next
  case (Cons tr ts)
  from main_step_json [of remote ntotal i tr st] obtain st1 where
    s: "main_step remote ntotal i tr st = Some st1"
    and j: "json_state st1 = json_step ntotal i (produced_document remote tr) (json_state st)"
    by blast
  from Cons.IH [of "i + 1" st1] s j show ?case by simp
qed

lemma main_json:
  "languages \<noteq> JUndefined \<Longrightarrow> languages \<noteq> JNull \<Longrightarrow>
   \<exists>st. main remote translations languages fs = Some (Completed st)
     \<and> files (fsys st) all_translations_json
         = snd (snd (json_run (length translations) 0 (map (produced_document remote) translations)
                       ([], True, files fs all_translations_json)))"
proof -
  assume nn: "languages \<noteq> JUndefined" "languages \<noteq> JNull"
  let ?fs0 = "writeFile [''datasets'', ''languages_list.json''] (JSON_stringify languages)
                  (writeFile [''datasets'', ''translations_list.json'']
                     (JSON_stringify (JArr (map JObj translations)))
                     (ensureDir [''datasets''] fs))"
  let ?st0 = "\<lparr>allTranslationsData = [], allTranslationsJSON = [], results = [],
                 successCount = 0, errorCount = 0, firstCSVChunk = True, firstJSONChunk = True,
                 fsys = ?fs0\<rparr>"
  have j0: "json_state ?st0 = ([], True, files fs all_translations_json)"
    by (simp add: json_state_def files_writeFile_other files_ensureDir)
  from main_loop_json [of remote "length translations" 0 "translations" "?st0"] obtain st' where
    l: "main_loop remote (length translations) 0 translations ?st0 = Some st'"
    and j: "json_state st' = json_run (length translations) 0 (map (produced_document remote) translations)
                (json_state ?st0)"
    by blast
  have "files (fsys st') all_translations_json = snd (snd (json_state st'))"
    by (simp add: json_state_def)
  then show ?thesis
    using l j j0 nn by (simp add: main_def Let_def files_writeFile_other)
qed


lemma json_run_append:
  "json_run ntotal i (xs @ ys) s = json_run ntotal (i + length xs) ys (json_run ntotal i xs s)"
  by (induction xs arbitrary: i s) simp_all

lemma json_run_buffering:
  "length buffer + length ds \<le> 20 \<Longrightarrow> int (i + length ds) \<le> int ntotal - 1 \<Longrightarrow>
   json_run ntotal i (map Some ds) (buffer, isFirst, content) = (buffer @ ds, isFirst, content)"
proof (induction ds arbitrary: i buffer)
  case Nil
  then show ?case by simp
next
  case (Cons d ds)
  have "json_step ntotal i (Some d) (buffer, isFirst, content) = (buffer @ [d], isFirst, content)"
    using Cons.prems by (simp add: json_step_def)
  then show ?case using Cons.IH [of "buffer @ [d]" "i + 1"] Cons.prems by simp
qed

lemma json_run_unterminated:
  assumes "length ds = 20"
  shows "json_run 22 0 (map Some (ds @ [d]) @ [None]) ([], True, content)
     = ([], False,
        Some (''['' @ [NL] @ concat (map (\<lambda>x. JSON_stringify (document_json x) @ '','' @ [NL]) (ds @ [d]))))"
proof -
  have a: "json_run 22 0 (map Some ds) ([], True, content) = (ds, True, content)"
    using json_run_buffering [of "[]" ds 0 22 True content] assms by simp
  have b: "json_step 22 20 (Some d) (ds, True, content)
      = ([], False,
         Some (''['' @ [NL] @ concat (map (\<lambda>x. JSON_stringify (document_json x) @ '','' @ [NL]) (ds @ [d]))))"
    using assms by (simp add: json_step_def json_flush_def)
  have c: "json_step 22 21 None ([], False, c') = ([], False, c')" for c'
    by (simp add: json_step_def json_flush_def)
  have "json_run 22 0 (map Some (ds @ [d]) @ [None]) ([], True, content)
      = json_run 22 20 [Some d, None] (json_run 22 0 (map Some ds) ([], True, content))"
    using json_run_append [of 22 0 "map Some ds" "[Some d, None]"] assms by simp
  then show ?thesis by (simp add: a b c)
qed

lemma produced22:
  "map (produced_document api22) catalog22 = map Some (map doc22 [1..<21] @ [doc22 21]) @ [None]"
  by code_simp

text \<open>
  C2 (the code departs from the claim). A run over a catalog of 22 translations, of which
  the first 21 have a verse and the last has none, completes, whatever the list of
  languages the second catalog request has returned: the loop reaches the last
  translation and makes the final flush. The flush at the 21st translation writes the
  opening bracket and the 21 documents, each followed by a comma; the final flush finds
  the buffer empty and returns before the closing bracket. The file is left as an array
  that is not closed.
\<close>

theorem main_unterminated_json:
  "\<exists>st. main api22 catalog22 (JArr languages) empty_fs = Some (Completed st)
     \<and> files (fsys st) all_translations_json
         = Some (''['' @ [NL]
                 @ concat (map (\<lambda>n. JSON_stringify (document_json (doc22 n)) @ '','' @ [NL]) [1..<22]))"
proof -
  have len: "length catalog22 = 22" by (simp add: catalog22_def)
  have l20: "length (map doc22 [1..<21]) = 20" by simp
  have "[1..<22::nat] = [1..<21] @ [21]" using upt_Suc_append [of 1 21] by simp
  then have docs: "map doc22 [1..<21] @ [doc22 21] = map doc22 [1..<22]" by simp
  have "json_run 22 0 (map (produced_document api22) catalog22)
          ([], True, files empty_fs all_translations_json)
      = ([], False,
         Some (''['' @ [NL]
               @ concat (map (\<lambda>x. JSON_stringify (document_json x) @ '','' @ [NL])
                           (map doc22 [1..<21] @ [doc22 21]))))"
    unfolding produced22 by (rule json_run_unterminated [OF l20])
  then have run: "snd (snd (json_run (length catalog22) 0 (map (produced_document api22) catalog22)
          ([], True, files empty_fs all_translations_json)))
      = Some (''['' @ [NL]
               @ concat (map (\<lambda>n. JSON_stringify (document_json (doc22 n)) @ '','' @ [NL]) [1..<22]))"
    unfolding len docs by (simp add: comp_def)
  have "JArr languages \<noteq> JUndefined" "JArr languages \<noteq> JNull" by simp_all
  from main_json [OF this, of api22 catalog22 empty_fs] obtain st where
    "main api22 catalog22 (JArr languages) empty_fs = Some (Completed st)"
    "files (fsys st) all_translations_json
       = snd (snd (json_run (length catalog22) 0 (map (produced_document api22) catalog22)
                     ([], True, files empty_fs all_translations_json)))"
    by blast
  then show ?thesis unfolding run by blast
qed

subsection \<open>The regrouping engine\<close>

text \<open>
  C9 (the code departs from the claim). The index recovers a language's versions from the
  keys of the version map with \<open>key.split('_')[1]\<close>, the text between the first and the
  second underscore of the key. For one English translation of version \<open>1_0\<close> the key
  is \<open>en_1_0\<close> and the index lists the version \<open>1\<close>.
\<close>

theorem index_truncates_version:
  "versionMap (organize_loop [versioned_doc ''en'' (JStr ''1_0'')] empty_fs)
     = [(''en_1_0'', [versioned_doc ''en'' (JStr ''1_0'')])]
   \<and> indexData (organize_loop [versioned_doc ''en'' (JStr ''1_0'')] empty_fs)
     = JObj [(''total_translations'', JNum 1),
             (''languages'',
              JArr [JObj [(''code'', JStr ''en''), (''translation_count'', JNum 1),
                          (''versions'', JArr [JStr ''1''])]])]
   \<and> files (org_fs (organizeTranslations [versioned_doc ''en'' (JStr ''1_0'')] empty_fs))
        [''datasets'', ''translations_index.json'']
     = Some (JSON_stringify (indexData (organize_loop [versioned_doc ''en'' (JStr ''1_0'')] empty_fs)))
   \<and> index_versions (organize_loop [versioned_doc ''en'' (JStr ''1.0'')] empty_fs) ''en''
     = [JStr ''1.0'']"
  by code_simp




























end
